theory Spec2Isabelle
  imports Complex_Main "HOL-Library.Multiset" "HOL-Library.Signed_Division"
begin

section \<open>BLE error estimation: a shallow embedding of the C++ core\<close>

text \<open>
  The development follows the C++ sources \<^verbatim>\<open>kalman.cpp\<close>, \<^verbatim>\<open>models.cpp\<close>,
  \<^verbatim>\<open>utils.cpp\<close> and \<^verbatim>\<open>metrics.cpp\<close>. A C++ \<^verbatim>\<open>float\<close> is idealised as a
  \<^typ>\<open>real\<close>: rounding, infinities and NaN are not represented. Where the source
  divides, the model divides in \<^typ>\<open>real\<close>; statements that depend on the value
  of a quotient carry the hypothesis that the divisor is not zero. The range of a
  \<^verbatim>\<open>float\<close> is represented where a divisor depends on it: the per-anchor weight
  of \<^verbatim>\<open>confidence_score\<close> is flushed to zero when it is too small to be a
  \<^verbatim>\<open>float\<close>, and a division by a zero total is an error value.
  \<^verbatim>\<open>std::pow(x, 2)\<close> is \<open>x\<^sup>2\<close>, \<^verbatim>\<open>std::log10\<close> is \<open>log 10\<close>,
  \<^verbatim>\<open>std::log1p(x)\<close> is \<open>ln (1 + x)\<close>.
\<close>

subsection \<open>The adaptive Kalman filter (kalman.h, kalman.cpp)\<close>

text \<open>
  The class \<^verbatim>\<open>KalmanFilter\<close>: the two 2x2 arrays \<^verbatim>\<open>Q\<close> and \<^verbatim>\<open>P\<close> are held
  entry by entry, the two \<^verbatim>\<open>std::vector<float>\<close> windows are lists with the oldest
  sample first.
\<close>

record KalmanFilter =
  Q00 :: real
  Q01 :: real
  Q10 :: real
  Q11 :: real
  P00 :: real
  P01 :: real
  P10 :: real
  P11 :: real
  kf_d_0 :: real
  kf_sigma :: real
  residuals :: "real list"
  rssi_vals :: "real list"

definition min_required_points :: nat where
  "min_required_points = 5"

definition max_buffer :: nat where
  "max_buffer = 50"

definition alpha :: real where
  "alpha = 0.1"

definition beta :: real where
  "beta = 0.8"

text \<open>The member initialisers of \<^verbatim>\<open>kalman.h\<close>.\<close>

definition KalmanFilter_init :: KalmanFilter where
  "KalmanFilter_init =
     \<lparr> Q00 = (0.0025)\<^sup>2, Q01 = 0, Q10 = 0, Q11 = (0.0001)\<^sup>2,
       P00 = 1, P01 = 0, P10 = 0, P11 = 0.1,
       kf_d_0 = 1, kf_sigma = 4,
       residuals = [], rssi_vals = [] \<rparr>"

text \<open>\<^verbatim>\<open>std::accumulate(begin, end, 0.0f)\<close>: a left fold of addition.\<close>

definition accumulate :: "real list \<Rightarrow> real \<Rightarrow> real" where
  "accumulate xs init = fold (\<lambda>x acc. acc + x) xs init"

text \<open>The loop \<^verbatim>\<open>for (float r : xs) var += std::pow(r - mean, 2.0f)\<close>.\<close>

definition sum_sq_dev :: "real list \<Rightarrow> real \<Rightarrow> real" where
  "sum_sq_dev xs mean = fold (\<lambda>r var. var + (r - mean)\<^sup>2) xs 0"

definition computeResidualVariance :: "KalmanFilter \<Rightarrow> real" where
  "computeResidualVariance kf =
     (if length (residuals kf) < min_required_points then (0.0025)\<^sup>2
      else
        let mean = accumulate (residuals kf) 0 / real (length (residuals kf));
            var = sum_sq_dev (residuals kf) mean
        in var / real (length (residuals kf)))"

definition computeRSSIStdDev :: "KalmanFilter \<Rightarrow> real" where
  "computeRSSIStdDev kf =
     (if length (rssi_vals kf) < min_required_points then 4
      else
        let mean = accumulate (rssi_vals kf) 0 / real (length (rssi_vals kf));
            var = sum_sq_dev (rssi_vals kf) mean
        in sqrt (var / real (length (rssi_vals kf))))"

text \<open>
  \<^verbatim>\<open>v.push_back(x); if (v.size() > max_buffer) v.erase(v.begin());\<close>
\<close>

definition push_trim :: "real list \<Rightarrow> real \<Rightarrow> real list" where
  "push_trim v x = (let v1 = v @ [x] in if length v1 > max_buffer then tl v1 else v1)"

text \<open>
  \<^verbatim>\<open>KalmanFilter::sequence_step\<close>, phase by phase in the order of the source.
  The first phase stores the RSSI value and adapts \<open>sigma\<close> and \<open>Q\<close>.
\<close>

definition store_rssi :: "KalmanFilter \<Rightarrow> real \<Rightarrow> KalmanFilter" where
  "store_rssi kf r_val = kf\<lparr>rssi_vals := push_trim (rssi_vals kf) r_val\<rparr>"

definition adapt_sigma :: "KalmanFilter \<Rightarrow> KalmanFilter" where
  "adapt_sigma kf =
     (if length (rssi_vals kf) \<ge> min_required_points
      then kf\<lparr>kf_sigma := beta * computeRSSIStdDev kf\<rparr>
      else kf)"

definition adapt_Q :: "KalmanFilter \<Rightarrow> KalmanFilter" where
  "adapt_Q kf =
     (if length (residuals kf) \<ge> min_required_points
      then (let resid_var = computeResidualVariance kf
            in kf\<lparr>Q00 := alpha * resid_var, Q11 := alpha * (resid_var / 100)\<rparr>)
      else kf)"

text \<open>\<open>P{i+1|i} = P{i|i} + Q\<close>.\<close>

definition predict_P :: "KalmanFilter \<Rightarrow> KalmanFilter" where
  "predict_P kf =
     kf\<lparr>P00 := P00 kf + Q00 kf, P01 := P01 kf + Q01 kf,
        P10 := P10 kf + Q10 kf, P11 := P11 kf + Q11 kf\<rparr>"

text \<open>The observation row \<open>H = [1, X]\<close> with the distance clamped from below.\<close>

definition obs_X :: "KalmanFilter \<Rightarrow> real \<Rightarrow> real" where
  "obs_X kf d_val = (let safe_d_val = max d_val (1 / 10 ^ 6)
                    in (- 10) * log 10 (safe_d_val / kf_d_0 kf))"

text \<open>The innovation variance \<open>S\<close> and the gain \<open>K\<close>, from the predicted \<open>P\<close>.\<close>

definition innov_S :: "KalmanFilter \<Rightarrow> real \<Rightarrow> real" where
  "innov_S kf X =
     1 * (P00 kf * 1 + P01 kf * X) + X * (P10 kf * 1 + P11 kf * X) + (kf_sigma kf)\<^sup>2"

definition gain_K :: "KalmanFilter \<Rightarrow> real \<Rightarrow> real \<times> real" where
  "gain_K kf X =
     ((P00 kf * 1 + P01 kf * X) / innov_S kf X,
      (P10 kf * 1 + P11 kf * X) / innov_S kf X)"

text \<open>\<open>P \<leftarrow> (I - K H) P\<close>, the four entries computed from the preceding \<open>P\<close>.\<close>

definition update_P :: "KalmanFilter \<Rightarrow> real \<times> real \<Rightarrow> real \<Rightarrow> KalmanFilter" where
  "update_P kf K X =
     (let KH00 = fst K * 1; KH01 = fst K * X; KH10 = snd K * 1; KH11 = snd K * X;
          I00 = 1 - KH00; I01 = - KH01; I10 = - KH10; I11 = 1 - KH11
      in kf\<lparr>P00 := I00 * P00 kf + I01 * P10 kf,
             P01 := I00 * P01 kf + I01 * P11 kf,
             P10 := I10 * P00 kf + I11 * P10 kf,
             P11 := I10 * P01 kf + I11 * P11 kf\<rparr>)"

text \<open>
  The whole step. It returns the updated filter together with the tuple
  \<open>(x_jj[0], x_jj[1])\<close> that the C++ method returns.
\<close>

definition sequence_step ::
  "KalmanFilter \<Rightarrow> real \<Rightarrow> real \<Rightarrow> real \<Rightarrow> real \<Rightarrow> KalmanFilter \<times> (real \<times> real)" where
  "sequence_step kf RSSI0_i n_i r_val d_val =
     (let kf1 = store_rssi kf r_val;
          kf2 = adapt_sigma kf1;
          kf3 = adapt_Q kf2;
          kf4 = predict_P kf3;
          X = obs_X kf4 d_val;
          r_predict = 1 * RSSI0_i + X * n_i;
          resid = r_val - r_predict;
          kf5 = kf4\<lparr>residuals := push_trim (residuals kf4) resid\<rparr>;
          K = gain_K kf5 X;
          x_jj = (RSSI0_i + fst K * resid, n_i + snd K * resid);
          kf6 = update_P kf5 K X
      in (kf6, x_jj))"

text \<open>
  A filter driven through a sequence of calls
  \<^verbatim>\<open>sequence_step(RSSI0_i, n_i, r_val, d_val)\<close>, as the tests of
  \<^verbatim>\<open>test_kalman.cpp\<close> drive it. The arguments of each call are arbitrary; feeding
  the returned estimates back is one instance.
\<close>

definition kalman_run :: "KalmanFilter \<Rightarrow> (real \<times> real \<times> real \<times> real) list \<Rightarrow> KalmanFilter" where
  "kalman_run kf calls =
     fold (\<lambda>(RSSI0_i, n_i, r_val, d_val) k. fst (sequence_step k RSSI0_i n_i r_val d_val))
       calls kf"

subsection \<open>Geometry and statistics kernel (utils.h, utils.cpp, config.h)\<close>

type_synonym PointR3 = "real \<times> real \<times> real"

definition R3_distance :: "PointR3 \<Rightarrow> PointR3 \<Rightarrow> real" where
  "R3_distance a b =
     (let delta_0 = (fst a - fst b)\<^sup>2;
          delta_1 = (fst (snd a) - fst (snd b))\<^sup>2;
          delta_2 = (snd (snd a) - snd (snd b))\<^sup>2
      in sqrt (delta_0 + delta_1 + delta_2))"

text \<open>
  The C library function \<^verbatim>\<open>std::lgamma\<close> is used at integers by the source and at
  half-integers by the documented formula. \<open>Gamma_half m\<close> is the Gamma function at
  \<open>m / 2\<close> for \<open>m \<ge> 1\<close>, from \<open>\<Gamma>(1/2) = sqrt pi\<close>, \<open>\<Gamma>(1) = 1\<close> and
  \<open>\<Gamma>(x + 1) = x \<Gamma>(x)\<close>; the value at \<open>0\<close> (a pole) is a placeholder.
\<close>

fun Gamma_half :: "nat \<Rightarrow> real" where
  "Gamma_half 0 = 0"
| "Gamma_half (Suc 0) = sqrt pi"
| "Gamma_half (Suc (Suc 0)) = 1"
| "Gamma_half (Suc (Suc (Suc m))) = (real (Suc m) / 2) * Gamma_half (Suc m)"

text \<open>\<^verbatim>\<open>std::lgamma(k)\<close> for an \<^verbatim>\<open>int\<close> argument \<open>k \<ge> 1\<close>.\<close>

definition lgamma_int :: "int \<Rightarrow> real" where
  "lgamma_int k = ln (Gamma_half (nat (2 * k)))"

text \<open>
  \<^verbatim>\<open>logpdf_student_t\<close>. The parameter \<^verbatim>\<open>v\<close> is a C++ \<^verbatim>\<open>int\<close>, so
  \<^verbatim>\<open>(v + 1) / 2\<close> and \<^verbatim>\<open>v / 2\<close> are integer divisions, truncating toward zero
  (\<open>sdiv\<close>); overflow of \<^verbatim>\<open>v + 1\<close> is left out.
\<close>

definition logpdf_student_t :: "real \<Rightarrow> int \<Rightarrow> real" where
  "logpdf_student_t z v =
     (let a_1 = lgamma_int ((v + 1) sdiv 2);
          a_2 = lgamma_int (v sdiv 2);
          a_3 = 0.5 * ln (real_of_int v * pi);
          a_4 = (real_of_int (v + 1) / 2) * ln (1 + (z * z) / real_of_int v)
      in a_1 - a_2 - a_3 - a_4)"

text \<open>
  The formula of the documentation, with \<open>(v + 1) / 2\<close> and \<open>v / 2\<close> as exact
  rationals: \<open>log\<Gamma>((v+1)/2) - log\<Gamma>(v/2) - (1/2) log(v \<pi>) - ((v+1)/2) log1p(z\<^sup>2/v)\<close>.
\<close>

definition logpdf_student_t_spec :: "real \<Rightarrow> int \<Rightarrow> real" where
  "logpdf_student_t_spec z v =
     ln (Gamma_half (nat (v + 1))) - ln (Gamma_half (nat v))
       - (1 / 2) * ln (real_of_int v * pi)
       - (real_of_int (v + 1) / 2) * ln (1 + z\<^sup>2 / real_of_int v)"

datatype error = OutOfRange | OutOfBounds | ZeroDivide

definition CEP95_TABLE :: "(real \<times> real) list" where
  "CEP95_TABLE =
     [(0.05, 7.4), (0.17, 6.1), (0.43, 4.3), (0.80, 2.5),
      (0.85, 2.0), (0.90, 1.6), (0.95, 1.2), (0.98, 0.9)]"

text \<open>
  The search loop of \<^verbatim>\<open>cep95_from_conf\<close>:
  \<^verbatim>\<open>for (; i < table.size() - 1; ++i) { if (table[i + 1].first > p_conf) break; }\<close>
\<close>

function find_segment :: "(real \<times> real) list \<Rightarrow> real \<Rightarrow> nat \<Rightarrow> nat" where
  "find_segment table p_conf i =
     (if i < length table - 1
      then (if fst (table ! (i + 1)) > p_conf then i
            else find_segment table p_conf (i + 1))
      else i)"
  by pat_completeness auto
termination
  by (relation "measure (\<lambda>(table, p_conf, i). length table - 1 - i)") auto

declare find_segment.simps [simp del]

text \<open>
  \<^verbatim>\<open>cep95_from_conf\<close>. Reading \<^verbatim>\<open>table[i + 1]\<close> past the end of the array is the
  branch \<open>Inl OutOfBounds\<close>.
\<close>

definition cep95_from_conf :: "real \<Rightarrow> error + real" where
  "cep95_from_conf p_conf =
     (let table = CEP95_TABLE in
      if p_conf \<le> fst (hd table) then Inr (snd (hd table))
      else if p_conf \<ge> fst (last table) then Inr (snd (last table))
      else
        let i = find_segment table p_conf 0 in
        if i + 1 < length table then
          let x0 = fst (table ! i); x1 = fst (table ! (i + 1));
              y0 = snd (table ! i); y1 = snd (table ! (i + 1));
              t = (p_conf - x0) / (x1 - x0)
          in Inr (y0 + t * (y1 - y0))
        else Inl OutOfBounds)"

text \<open>
  The closed form that \<^verbatim>\<open>cep95_from_conf\<close> computes on the table of
  \<^verbatim>\<open>config.h\<close>: one linear piece for each pair of adjacent knots. It is used to
  reason about the loop (lemma \<open>cep95_eq_pw\<close>).
\<close>

definition cep95_pw :: "real \<Rightarrow> real" where
  "cep95_pw p =
     (if p \<le> 0.05 then 7.4
      else if p < 0.17 then 7.4 + (p - 0.05) / (0.17 - 0.05) * (6.1 - 7.4)
      else if p < 0.43 then 6.1 + (p - 0.17) / (0.43 - 0.17) * (4.3 - 6.1)
      else if p < 0.80 then 4.3 + (p - 0.43) / (0.80 - 0.43) * (2.5 - 4.3)
      else if p < 0.85 then 2.5 + (p - 0.80) / (0.85 - 0.80) * (2.0 - 2.5)
      else if p < 0.90 then 2.0 + (p - 0.85) / (0.90 - 0.85) * (1.6 - 2.0)
      else if p < 0.95 then 1.6 + (p - 0.90) / (0.95 - 0.90) * (1.2 - 1.6)
      else if p < 0.98 then 1.2 + (p - 0.95) / (0.98 - 0.95) * (0.9 - 1.2)
      else 0.9)"

definition MAX_SIGNIFICANT_ANCHORS :: int where
  "MAX_SIGNIFICANT_ANCHORS = 5"

definition EWMA_THRESHOLD :: real where
  "EWMA_THRESHOLD = 8"

definition LAMBDA_EWMA :: real where
  "LAMBDA_EWMA = 0.05"

subsection \<open>Anchors, tags and the path-loss model (models.h, models.cpp)\<close>

text \<open>The field \<^verbatim>\<open>n\<close> of the class \<^verbatim>\<open>Anchor\<close> is \<open>n_exp\<close> here.\<close>

record Anchor =
  mac_address :: string
  coord :: PointR3
  ewma :: real
  last_seen :: real
  RSSI_0 :: real
  n_exp :: real
  kalman :: KalmanFilter

definition Anchor_new :: "string \<Rightarrow> PointR3 \<Rightarrow> real \<Rightarrow> Anchor" where
  "Anchor_new mac coordinate timestamp =
     \<lparr> mac_address = mac, coord = coordinate, ewma = 1, last_seen = timestamp,
       RSSI_0 = - 59, n_exp = 2, kalman = KalmanFilter_init \<rparr>"

definition update_health :: "Anchor \<Rightarrow> real \<Rightarrow> real \<Rightarrow> real \<Rightarrow> Anchor" where
  "update_health a z now LAMBDA =
     a\<lparr>ewma := LAMBDA * z\<^sup>2 + (1 - LAMBDA) * ewma a, last_seen := now\<rparr>"

definition update_parameters :: "Anchor \<Rightarrow> real \<Rightarrow> real \<Rightarrow> Anchor" where
  "update_parameters a measured_rssi estimated_distance =
     (let kaloutpt = sequence_step (kalman a) (RSSI_0 a) (n_exp a)
                       measured_rssi estimated_distance
      in a\<lparr>kalman := fst kaloutpt,
            RSSI_0 := fst (snd kaloutpt),
            n_exp := snd (snd kaloutpt)\<rparr>)"

definition is_warning :: "Anchor \<Rightarrow> bool" where
  "is_warning a \<longleftrightarrow> ewma a \<ge> 4 \<and> ewma a < 8"

definition is_faulty :: "Anchor \<Rightarrow> bool" where
  "is_faulty a \<longleftrightarrow> ewma a \<ge> 8"

text \<open>
  The \<^verbatim>\<open>std::unordered_map<std::string, float>\<close> of RSSI readings is an association
  list; a loop over the map visits the entries in list order.
\<close>

record Tag =
  tag_mac_address :: string
  est_coord :: PointR3
  rssi_readings :: "(string \<times> real) list"

record PathLossModel =
  pl_d_0 :: real
  pl_sigma :: real

definition PathLossModel_init :: PathLossModel where
  "PathLossModel_init = \<lparr> pl_d_0 = 1, pl_sigma = 4 \<rparr>"

definition PathLossModel_mu :: "PathLossModel \<Rightarrow> real \<Rightarrow> real \<Rightarrow> real \<Rightarrow> real" where
  "PathLossModel_mu m rssi_0 n est_dist =
     (let safe_dist = max est_dist (1 / 10 ^ 6)
      in rssi_0 - (10 * n * log 10 (safe_dist / pl_d_0 m)))"

definition PathLossModel_z ::
  "PathLossModel \<Rightarrow> real \<Rightarrow> real \<Rightarrow> real \<Rightarrow> real \<Rightarrow> real" where
  "PathLossModel_z m rssi_freq rssi_0 n est_dist =
     (let mu_val = PathLossModel_mu m rssi_0 n est_dist
      in (rssi_freq - mu_val) / pl_sigma m)"

subsection \<open>The fix evaluator (metrics.h, metrics.cpp)\<close>

text \<open>
  The functions of \<^verbatim>\<open>metrics.cpp\<close> work on \<^verbatim>\<open>Anchor*\<close>. An address is a natural
  number and the store maps every address to the anchor it holds; a
  \<^verbatim>\<open>std::vector<Anchor*>\<close> is a list of addresses, which may repeat.
\<close>

type_synonym addr = nat

type_synonym heap = "addr \<Rightarrow> Anchor"

record TagSystem =
  ts_tag :: Tag
  ts_model :: PathLossModel

text \<open>
  A \<^verbatim>\<open>std::unordered_map<Anchor*, float>\<close>. The specialisations of
  \<^verbatim>\<open>std::hash<Anchor*>\<close> and \<^verbatim>\<open>std::equal_to<Anchor*>\<close> in \<^verbatim>\<open>models.h\<close> compare
  keys by MAC address, so \<^verbatim>\<open>result[anchor] = v\<close> overwrites the value of an entry
  whose key has the same MAC address and keeps that entry's key. Loops visit the
  entries in insertion order.
\<close>

type_synonym anchor_map = "(addr \<times> real) list"

fun umap_assign :: "heap \<Rightarrow> anchor_map \<Rightarrow> addr \<Rightarrow> real \<Rightarrow> anchor_map" where
  "umap_assign h [] k v = [(k, v)]"
| "umap_assign h ((k', v') # m) k v =
     (if mac_address (h k') = mac_address (h k) then (k', v) # m
      else (k', v') # umap_assign h m k v)"

text \<open>\<^verbatim>\<open>m.at(k)\<close> throws \<^verbatim>\<open>std::out_of_range\<close> when the key is absent.\<close>

fun umap_at :: "heap \<Rightarrow> anchor_map \<Rightarrow> addr \<Rightarrow> error + real" where
  "umap_at h [] k = Inl OutOfRange"
| "umap_at h ((k', v') # m) k =
     (if mac_address (h k') = mac_address (h k) then Inr v' else umap_at h m k)"

definition rssi_at :: "(string \<times> real) list \<Rightarrow> string \<Rightarrow> error + real" where
  "rssi_at rssi_dict mac =
     (case map_of rssi_dict mac of None \<Rightarrow> Inl OutOfRange | Some r \<Rightarrow> Inr r)"

text \<open>\<^verbatim>\<open>std::numeric_limits<float>::lowest()\<close>.\<close>

definition FLT_LOWEST :: real where
  "FLT_LOWEST = - ((2 - 1 / 2 ^ 23) * 2 ^ 127)"

text \<open>The loop that finds the strongest RSSI of the fix.\<close>

definition max_rssi_of :: "(string \<times> real) list \<Rightarrow> real" where
  "max_rssi_of rssi_dict =
     fold (\<lambda>(key, value) max_rssi. if value > max_rssi then value else max_rssi)
       rssi_dict FLT_LOWEST"

text \<open>The selection loop of \<^verbatim>\<open>get_significant_anchors\<close>, filling \<^verbatim>\<open>keep\<close>.\<close>

definition keep_loop :: "heap \<Rightarrow> (string \<times> real) list \<Rightarrow> real \<Rightarrow> addr list \<Rightarrow> addr list" where
  "keep_loop h rssi_dict max_rssi anch_list =
     fold (\<lambda>anchor keep.
            (case map_of rssi_dict (mac_address (h anchor)) of
               None \<Rightarrow> keep
             | Some r \<Rightarrow>
                 if r \<ge> max_rssi - 10 \<and> ewma (h anchor) < EWMA_THRESHOLD
                 then keep @ [anchor] else keep))
       anch_list []"

text \<open>
  The key the comparator of \<^verbatim>\<open>std::sort\<close> reads with \<^verbatim>\<open>rssi_dict.at\<close>. The
  comparator runs on elements of \<^verbatim>\<open>keep\<close> only, and each of them has a reading
  (lemma \<open>keep_loop_has_reading\<close> below), so this \<^verbatim>\<open>at\<close> cannot throw.
\<close>

definition sort_rssi :: "heap \<Rightarrow> (string \<times> real) list \<Rightarrow> addr \<Rightarrow> real" where
  "sort_rssi h rssi_dict a = the (map_of rssi_dict (mac_address (h a)))"

text \<open>
  \<^verbatim>\<open>std::sort\<close> with the comparator \<open>rssi a1 > rssi a2\<close>. The C++ standard
  fixes the result only up to the order of elements that compare equivalent: the
  output is a permutation of the input in which no element precedes one of
  strictly greater key, and \<^verbatim>\<open>std::sort\<close> is not stable (the introsort of
  libstdc++ reorders equal keys in ranges of more than 16 elements). An
  implementation of \<^verbatim>\<open>std::sort\<close> is therefore a value of the type
  \<open>std_sort_impl\<close>: any function from the key and the input to an output with
  these two properties. The functions of \<^verbatim>\<open>metrics.cpp\<close> below take the
  implementation as their first argument, and what is proved of them with a
  variable implementation holds of every order \<^verbatim>\<open>std::sort\<close> may give to ties.
\<close>

typedef std_sort_impl =
  "{srt :: (addr \<Rightarrow> real) \<Rightarrow> addr list \<Rightarrow> addr list.
      \<forall>key xs. mset (srt key xs) = mset xs
                \<and> sorted_wrt (\<lambda>a b. key b \<le> key a) (srt key xs)}"
  morphisms std_sort Abs_std_sort_impl
proof
  show "(\<lambda>key. sort_key (\<lambda>a. - key a)) \<in>
          {srt :: (addr \<Rightarrow> real) \<Rightarrow> addr list \<Rightarrow> addr list.
             \<forall>key xs. mset (srt key xs) = mset xs
                       \<and> sorted_wrt (\<lambda>a b. key b \<le> key a) (srt key xs)}"
  proof (intro CollectI allI conjI)
    fix key :: "addr \<Rightarrow> real" and xs :: "addr list"
    show "mset (sort_key (\<lambda>a. - key a) xs) = mset xs" by simp
    have "sorted (map (\<lambda>a. - key a) (sort_key (\<lambda>a. - key a) xs))" by (rule sorted_sort_key)
    then show "sorted_wrt (\<lambda>a b. key b \<le> key a) (sort_key (\<lambda>a. - key a) xs)"
      by (simp add: sorted_wrt_map)
  qed
qed

setup_lifting type_definition_std_sort_impl

text \<open>
  One implementation, the stable insertion sort, for evaluating the functions on
  concrete inputs. The inputs evaluated below hold no two anchors of equal RSSI,
  and on such a list every implementation returns the same result.
\<close>

lift_definition insertion_sort :: std_sort_impl is "\<lambda>key. sort_key (\<lambda>a. - key a)"
proof (intro allI conjI)
  fix key :: "addr \<Rightarrow> real" and xs :: "addr list"
  show "mset (sort_key (\<lambda>a. - key a) xs) = mset xs" by simp
  have "sorted (map (\<lambda>a. - key a) (sort_key (\<lambda>a. - key a) xs))" by (rule sorted_sort_key)
  then show "sorted_wrt (\<lambda>a b. key b \<le> key a) (sort_key (\<lambda>a. - key a) xs)"
    by (simp add: sorted_wrt_map)
qed

text \<open>
  A second implementation, which leaves equal keys in the reverse of their input
  order: the type does not fix the order of ties (lemma \<open>std_sort_ties\<close> below).
\<close>

lift_definition reversing_sort :: std_sort_impl is "\<lambda>key xs. rev (sort_key key xs)"
proof (intro allI conjI)
  fix key :: "addr \<Rightarrow> real" and xs :: "addr list"
  show "mset (rev (sort_key key xs)) = mset xs" by simp
  have "sorted (map key (sort_key key xs))" by (rule sorted_sort_key)
  then have "sorted_wrt (\<lambda>a b. key a \<le> key b) (sort_key key xs)"
    by (simp add: sorted_wrt_map)
  then show "sorted_wrt (\<lambda>a b. key b \<le> key a) (rev (sort_key key xs))"
    by (simp add: sorted_wrt_rev)
qed

definition std_sort_desc ::
  "std_sort_impl \<Rightarrow> heap \<Rightarrow> (string \<times> real) list \<Rightarrow> addr list \<Rightarrow> addr list" where
  "std_sort_desc srt h rssi_dict keep = std_sort srt (sort_rssi h rssi_dict) keep"

text \<open>\<^verbatim>\<open>static_cast<size_t>(max_n)\<close> on a 64-bit target.\<close>

definition size_t_of_int :: "int \<Rightarrow> nat" where
  "size_t_of_int i = nat (i mod 2 ^ 64)"

definition get_significant_anchors ::
  "std_sort_impl \<Rightarrow> heap \<Rightarrow> TagSystem \<Rightarrow> addr list \<Rightarrow> int \<Rightarrow> addr list" where
  "get_significant_anchors srt h ts anch_list max_n =
     (let rssi_dict = rssi_readings (ts_tag ts) in
      if rssi_dict = [] then []
      else
        let max_rssi = max_rssi_of rssi_dict;
            keep = keep_loop h rssi_dict max_rssi anch_list;
            keep = std_sort_desc srt h rssi_dict keep
        in if length keep > size_t_of_int max_n then take (size_t_of_int max_n) keep
           else keep)"

text \<open>
  The selection as the specification words it, to be compared with
  \<^verbatim>\<open>get_significant_anchors\<close>: from the candidate list keep the anchors that
  appear in the fix's RSSI map, have RSSI within 10 dB of the strongest RSSI
  observed in the fix and have EWMA strictly below 8; sort the survivors by RSSI
  descending; truncate to at most 5. The words fix no order among survivors of
  equal RSSI, so the specification is a relation between the candidates and a
  result: the result is the first 5 entries (all of them, if there are fewer) of
  some arrangement of the survivors in which RSSI never increases.
\<close>

definition strongest_rssi :: "(string \<times> real) list \<Rightarrow> real" where
  "strongest_rssi rssi_dict = Max (snd ` set rssi_dict)"

definition qualifies :: "heap \<Rightarrow> TagSystem \<Rightarrow> addr \<Rightarrow> bool" where
  "qualifies h ts a \<longleftrightarrow>
     (case map_of (rssi_readings (ts_tag ts)) (mac_address (h a)) of
        None \<Rightarrow> False
      | Some r \<Rightarrow> strongest_rssi (rssi_readings (ts_tag ts)) - r \<le> 10 \<and> ewma (h a) < 8)"

definition significant_spec :: "heap \<Rightarrow> TagSystem \<Rightarrow> addr list \<Rightarrow> addr list \<Rightarrow> bool" where
  "significant_spec h ts candidates result \<longleftrightarrow>
     (\<exists>survivors.
        mset survivors = mset (filter (qualifies h ts) candidates)
        \<and> sorted_wrt (\<lambda>a b. the (map_of (rssi_readings (ts_tag ts)) (mac_address (h b)))
                             \<le> the (map_of (rssi_readings (ts_tag ts)) (mac_address (h a))))
              survivors
        \<and> result = take 5 survivors)"

definition distances :: "std_sort_impl \<Rightarrow> heap \<Rightarrow> TagSystem \<Rightarrow> addr list \<Rightarrow> anchor_map" where
  "distances srt h ts anch_list =
     (let significant_anchors =
            get_significant_anchors srt h ts anch_list MAX_SIGNIFICANT_ANCHORS
      in fold (\<lambda>anchor result.
                 umap_assign h result anchor
                   (R3_distance (coord (h anchor)) (est_coord (ts_tag ts))))
           significant_anchors [])"

fun z_loop :: "heap \<Rightarrow> TagSystem \<Rightarrow> anchor_map \<Rightarrow> anchor_map \<Rightarrow> error + anchor_map" where
  "z_loop h ts [] result = Inr result"
| "z_loop h ts ((anchor, est_dist) # rest) result =
     (case rssi_at (rssi_readings (ts_tag ts)) (mac_address (h anchor)) of
        Inl e \<Rightarrow> Inl e
      | Inr rssi_value \<Rightarrow>
          z_loop h ts rest
            (umap_assign h result anchor
               (PathLossModel_z (ts_model ts) rssi_value
                  (RSSI_0 (h anchor)) (n_exp (h anchor)) est_dist)))"

definition z_vals ::
  "std_sort_impl \<Rightarrow> heap \<Rightarrow> TagSystem \<Rightarrow> addr list \<Rightarrow> error + anchor_map" where
  "z_vals srt h ts anch_list = z_loop h ts (distances srt h ts anch_list) []"

text \<open>
  The weight of one anchor in \<^verbatim>\<open>confidence_score\<close>:
  \<^verbatim>\<open>float anchor_weight = 1.0f / (1.0f + anchor_ewma + std::pow(z_val, 2));\<close>
  \<^verbatim>\<open>std::pow(float, int)\<close> returns a \<^verbatim>\<open>double\<close>, so the sum and the quotient
  are computed in \<^verbatim>\<open>double\<close> (where the square of a \<^verbatim>\<open>float\<close> cannot
  overflow) and the quotient is then stored in a \<^verbatim>\<open>float\<close>. The smallest
  positive \<^verbatim>\<open>float\<close> is \<open>1 / 2 ^ 149\<close>; under round-to-nearest-even a
  \<^verbatim>\<open>double\<close> of magnitude at most \<open>1 / 2 ^ 150\<close> is stored as zero.
  \<open>float_of_double\<close> models this store: the rounding of a value in range is
  idealised, the flush to zero is not.
\<close>

definition float_of_double :: "real \<Rightarrow> real" where
  "float_of_double x = (if \<bar>x\<bar> \<le> 1 / 2 ^ 150 then 0 else x)"

definition anchor_weight :: "heap \<Rightarrow> addr \<Rightarrow> real \<Rightarrow> real" where
  "anchor_weight h anchor z_val = float_of_double (1 / (1 + ewma (h anchor) + z_val\<^sup>2))"

text \<open>
  The accumulation loop of \<^verbatim>\<open>confidence_score\<close>; the state is the pair
  \<open>(weighted_sig, total_weight)\<close>.
\<close>

definition score_sums :: "heap \<Rightarrow> anchor_map \<Rightarrow> int \<Rightarrow> real \<times> real" where
  "score_sums h z_dict v =
     fold (\<lambda>(anchor, z_val) (weighted_sig, total_weight).
             (weighted_sig + anchor_weight h anchor z_val * logpdf_student_t z_val v,
              total_weight + anchor_weight h anchor z_val))
       z_dict (0, 0)"

text \<open>
  \<^verbatim>\<open>confidence_score\<close>. The source divides \<^verbatim>\<open>weighted_sig\<close> by
  \<^verbatim>\<open>total_weight\<close> without a test. A \<^verbatim>\<open>float\<close> division by zero does not
  trap: it gives NaN or an infinity, which \<^typ>\<open>real\<close> does not have, so the
  model returns \<open>ZeroDivide\<close> when the total weight is zero.
\<close>

definition confidence_score ::
  "std_sort_impl \<Rightarrow> heap \<Rightarrow> TagSystem \<Rightarrow> addr list \<Rightarrow> int \<Rightarrow> real \<Rightarrow> error + real" where
  "confidence_score srt h ts anch_list v scale =
     (case z_vals srt h ts anch_list of
        Inl e \<Rightarrow> Inl e
      | Inr z_dict \<Rightarrow>
          if z_dict = [] then Inr 0
          else
            let totals = score_sums h z_dict v
            in if snd totals = 0 then Inl ZeroDivide
               else
                 let l = fst totals / snd totals
                 in Inr (exp (l / scale)))"

definition error_radius ::
  "std_sort_impl \<Rightarrow> heap \<Rightarrow> TagSystem \<Rightarrow> addr list \<Rightarrow> error + real" where
  "error_radius srt h ts anch_list =
     (case confidence_score srt h ts anch_list 5 2 of
        Inl e \<Rightarrow> Inl e
      | Inr p_val \<Rightarrow> cep95_from_conf p_val)"

subsection \<open>The update orchestrator (metrics.cpp)\<close>

text \<open>The parameter-update loop over \<^verbatim>\<open>significant_anchors\<close>.\<close>

fun param_loop ::
  "(string \<times> real) list \<Rightarrow> anchor_map \<Rightarrow> addr list \<Rightarrow> heap \<Rightarrow> error + heap" where
  "param_loop rssi_dict distance_dict [] h = Inr h"
| "param_loop rssi_dict distance_dict (sign_anchor # rest) h =
     (case rssi_at rssi_dict (mac_address (h sign_anchor)) of
        Inl e \<Rightarrow> Inl e
      | Inr sign_anchor_rssi \<Rightarrow>
          (case umap_at h distance_dict sign_anchor of
             Inl e \<Rightarrow> Inl e
           | Inr sign_anchor_dist \<Rightarrow>
               param_loop rssi_dict distance_dict rest
                 (h(sign_anchor :=
                      update_parameters (h sign_anchor) sign_anchor_rssi sign_anchor_dist))))"

text \<open>The admission test of the health-update loop.\<close>

definition admitted :: "Anchor \<Rightarrow> real \<Rightarrow> real \<Rightarrow> real \<Rightarrow> real \<Rightarrow> int \<Rightarrow> bool" where
  "admitted a sign_anchor_rssi max_rssi now deltaR T_vis =
     (let rssi_delta = max_rssi - sign_anchor_rssi;
          time_since_last_seen = (if last_seen a \<noteq> 0 then now - last_seen a else 0)
      in \<not> (time_since_last_seen > real_of_int T_vis \<or> rssi_delta > deltaR))"

fun health_loop ::
  "(string \<times> real) list \<Rightarrow> real \<Rightarrow> real \<Rightarrow> real \<Rightarrow> int \<Rightarrow> anchor_map \<Rightarrow> heap \<Rightarrow> error + heap" where
  "health_loop rssi_dict max_rssi now deltaR T_vis [] h = Inr h"
| "health_loop rssi_dict max_rssi now deltaR T_vis ((sign_anchor, sign_anchor_z_val) # rest) h =
     (case rssi_at rssi_dict (mac_address (h sign_anchor)) of
        Inl e \<Rightarrow> Inl e
      | Inr sign_anchor_rssi \<Rightarrow>
          if admitted (h sign_anchor) sign_anchor_rssi max_rssi now deltaR T_vis
          then health_loop rssi_dict max_rssi now deltaR T_vis rest
                 (h(sign_anchor :=
                      update_health (h sign_anchor) sign_anchor_z_val now LAMBDA_EWMA))
          else health_loop rssi_dict max_rssi now deltaR T_vis rest h)"

text \<open>
  \<^verbatim>\<open>update_anchors_from_tag_data\<close>. It returns the store after the fix, or the
  exception an \<^verbatim>\<open>at\<close> would throw.
\<close>

definition update_anchors_from_tag_data ::
  "std_sort_impl \<Rightarrow> heap \<Rightarrow> addr list \<Rightarrow> Tag \<Rightarrow> PathLossModel \<Rightarrow> real \<Rightarrow> real \<Rightarrow> int
     \<Rightarrow> error + heap" where
  "update_anchors_from_tag_data srt h anch_list inpt_tag inpt_model now deltaR T_vis =
     (let moment_system = \<lparr> ts_tag = inpt_tag, ts_model = inpt_model \<rparr>;
          rssi_dict = rssi_readings (ts_tag moment_system)
      in if rssi_dict = [] then Inr h
         else
           let significant_anchors =
                 get_significant_anchors srt h moment_system anch_list
                   MAX_SIGNIFICANT_ANCHORS;
               distance_dict = distances srt h moment_system anch_list
           in (case param_loop rssi_dict distance_dict significant_anchors h of
                 Inl e \<Rightarrow> Inl e
               | Inr h1 \<Rightarrow>
                   (case z_vals srt h1 moment_system anch_list of
                      Inl e \<Rightarrow> Inl e
                    | Inr z_dict \<Rightarrow>
                        health_loop rssi_dict (max_rssi_of rssi_dict) now deltaR T_vis
                          z_dict h1)))"

subsection \<open>Fixtures\<close>

text \<open>
  The anchors and the tag that \<^verbatim>\<open>test_metrics.cpp\<close> builds in
  \<^verbatim>\<open>create_test_anchors\<close> and \<^verbatim>\<open>create_test_tag\<close>; the five anchors live at the
  addresses \<open>0\<close> to \<open>4\<close>.
\<close>

definition create_test_anchors :: heap where
  "create_test_anchors =
     (\<lambda>p. if p = 0 then Anchor_new ''AA:BB:CC:DD:EE:01'' (0, 0, 0) 1000
          else if p = 1 then Anchor_new ''AA:BB:CC:DD:EE:02'' (5, 0, 0) 1000
          else if p = 2 then Anchor_new ''AA:BB:CC:DD:EE:03'' (10, 0, 0) 1000
          else if p = 3 then Anchor_new ''AA:BB:CC:DD:EE:04'' (1, 1, 0) 1000
          else Anchor_new ''AA:BB:CC:DD:EE:05'' (2, 2, 0) 1000)"

definition create_test_tag :: Tag where
  "create_test_tag =
     \<lparr> tag_mac_address = ''TAG:01'', est_coord = (2, 1, 0),
       rssi_readings = [(''AA:BB:CC:DD:EE:01'', - 50), (''AA:BB:CC:DD:EE:02'', - 60),
                        (''AA:BB:CC:DD:EE:03'', - 65), (''AA:BB:CC:DD:EE:04'', - 80)] \<rparr>"

definition test_system :: TagSystem where
  "test_system = \<lparr> ts_tag = create_test_tag, ts_model = PathLossModel_init \<rparr>"

text \<open>
  The first end-to-end scenario of the specification: a single anchor at the
  origin in its default state, last seen at \<open>t\<close>, and a tag at the origin that hears
  it at -59 dBm.
\<close>

definition scenario_anchors :: "real \<Rightarrow> heap" where
  "scenario_anchors t = (\<lambda>p. Anchor_new ''AA:BB:CC:DD:EE:01'' (0, 0, 0) t)"

definition scenario_tag :: Tag where
  "scenario_tag =
     \<lparr> tag_mac_address = ''TAG:01'', est_coord = (0, 0, 0),
       rssi_readings = [(''AA:BB:CC:DD:EE:01'', - 59)] \<rparr>"


section \<open>Properties\<close>

subsection \<open>The CEP95 lookup\<close>

lemma find_segment_break:
  "i < length t - 1 \<Longrightarrow> fst (t ! (i + 1)) > p \<Longrightarrow> find_segment t p i = i"
  by (subst find_segment.simps) simp

lemma find_segment_skip:
  "i < length t - 1 \<Longrightarrow> \<not> fst (t ! (i + 1)) > p \<Longrightarrow> find_segment t p i = find_segment t p (i + 1)"
  by (subst find_segment.simps) simp

lemma find_segment_end:
  "\<not> i < length t - 1 \<Longrightarrow> find_segment t p i = i"
  by (subst find_segment.simps) simp

lemma table_nth:
  "CEP95_TABLE ! 0 = (0.05, 7.4)" "CEP95_TABLE ! 1 = (0.17, 6.1)"
  "CEP95_TABLE ! 2 = (0.43, 4.3)" "CEP95_TABLE ! 3 = (0.80, 2.5)"
  "CEP95_TABLE ! 4 = (0.85, 2.0)" "CEP95_TABLE ! 5 = (0.90, 1.6)"
  "CEP95_TABLE ! 6 = (0.95, 1.2)" "CEP95_TABLE ! 7 = (0.98, 0.9)"
  "length CEP95_TABLE = 8" "hd CEP95_TABLE = (0.05, 7.4)" "last CEP95_TABLE = (0.98, 0.9)"
  by (simp_all add: CEP95_TABLE_def)


lemma find_segment_sorted:
  assumes "sorted (map fst t)" and "j + 1 < length t" and "i \<le> j"
    and "fst (t ! j) \<le> p" and "p < fst (t ! (j + 1))"
  shows "find_segment t p i = j"
  using assms(3)
proof (induction "j - i" arbitrary: i)
  case 0
  then have "i = j" by simp
  with assms(2,5) show ?case by (simp add: find_segment_break)
next
  case (Suc d)
  then have lt: "i < j" by simp
  have "map fst t ! (i + 1) \<le> map fst t ! j"
    using assms(1,2) lt by (intro sorted_nth_mono) simp_all
  then have "fst (t ! (i + 1)) \<le> p"
    using assms(2,4) lt by simp
  then have "find_segment t p i = find_segment t p (i + 1)"
    using assms(2) lt by (intro find_segment_skip) simp_all
  moreover have "find_segment t p (i + 1) = j"
    using Suc lt by (intro Suc.hyps(1)) simp_all
  ultimately show ?case by simp
qed

lemma table_nth_Suc:
  "CEP95_TABLE ! Suc 0 = (0.17, 6.1)" "CEP95_TABLE ! Suc (Suc 0) = (0.43, 4.3)"
  by (simp_all add: CEP95_TABLE_def)

lemma sorted_table: "sorted (map fst CEP95_TABLE)"
  by (simp add: CEP95_TABLE_def)

lemma seg0: "0.05 \<le> p \<Longrightarrow> p < 0.17 \<Longrightarrow> find_segment CEP95_TABLE p 0 = 0"
  using find_segment_sorted[of CEP95_TABLE 0 0 p] by (simp add: table_nth table_nth_Suc sorted_table)

lemma seg1: "0.17 \<le> p \<Longrightarrow> p < 0.43 \<Longrightarrow> find_segment CEP95_TABLE p 0 = 1"
  using find_segment_sorted[of CEP95_TABLE 1 0 p] by (simp add: table_nth table_nth_Suc sorted_table)

lemma seg2: "0.43 \<le> p \<Longrightarrow> p < 0.80 \<Longrightarrow> find_segment CEP95_TABLE p 0 = 2"
  using find_segment_sorted[of CEP95_TABLE 2 0 p] by (simp add: table_nth table_nth_Suc sorted_table)

lemma seg3: "0.80 \<le> p \<Longrightarrow> p < 0.85 \<Longrightarrow> find_segment CEP95_TABLE p 0 = 3"
  using find_segment_sorted[of CEP95_TABLE 3 0 p] by (simp add: table_nth table_nth_Suc sorted_table)

lemma seg4: "0.85 \<le> p \<Longrightarrow> p < 0.90 \<Longrightarrow> find_segment CEP95_TABLE p 0 = 4"
  using find_segment_sorted[of CEP95_TABLE 4 0 p] by (simp add: table_nth table_nth_Suc sorted_table)

lemma seg5: "0.90 \<le> p \<Longrightarrow> p < 0.95 \<Longrightarrow> find_segment CEP95_TABLE p 0 = 5"
  using find_segment_sorted[of CEP95_TABLE 5 0 p] by (simp add: table_nth table_nth_Suc sorted_table)

lemma seg6: "0.95 \<le> p \<Longrightarrow> p < 0.98 \<Longrightarrow> find_segment CEP95_TABLE p 0 = 6"
  using find_segment_sorted[of CEP95_TABLE 6 0 p] by (simp add: table_nth table_nth_Suc sorted_table)

lemma cep95_eq_pw: "cep95_from_conf p = Inr (cep95_pw p)"
proof -
  consider "p \<le> 0.05" | "0.05 < p" "p < 0.17" | "0.17 \<le> p" "p < 0.43"
    | "0.43 \<le> p" "p < 0.80" | "0.80 \<le> p" "p < 0.85" | "0.85 \<le> p" "p < 0.90"
    | "0.90 \<le> p" "p < 0.95" | "0.95 \<le> p" "p < 0.98" | "0.98 \<le> p"
    by linarith
  then show ?thesis
  proof cases
    case 1 then show ?thesis by (simp add: cep95_from_conf_def cep95_pw_def table_nth)
  next
    case 2 then show ?thesis
      by (simp add: cep95_from_conf_def cep95_pw_def table_nth table_nth_Suc seg0 Let_def diff_divide_distrib)
  next
    case 3 then show ?thesis
      by (simp add: cep95_from_conf_def cep95_pw_def table_nth table_nth_Suc seg1 Let_def diff_divide_distrib)
  next
    case 4 then show ?thesis
      by (simp add: cep95_from_conf_def cep95_pw_def table_nth table_nth_Suc seg2 Let_def diff_divide_distrib)
  next
    case 5 then show ?thesis
      by (simp add: cep95_from_conf_def cep95_pw_def table_nth table_nth_Suc seg3 Let_def diff_divide_distrib)
  next
    case 6 then show ?thesis
      by (simp add: cep95_from_conf_def cep95_pw_def table_nth table_nth_Suc seg4 Let_def diff_divide_distrib)
  next
    case 7 then show ?thesis
      by (simp add: cep95_from_conf_def cep95_pw_def table_nth table_nth_Suc seg5 Let_def diff_divide_distrib)
  next
    case 8 then show ?thesis
      by (simp add: cep95_from_conf_def cep95_pw_def table_nth table_nth_Suc seg6 Let_def diff_divide_distrib)
  next
    case 9 then show ?thesis
      by (simp add: cep95_from_conf_def cep95_pw_def table_nth)
  qed
qed

lemma cep95_pw_antimono: "p \<le> q \<Longrightarrow> cep95_pw q \<le> cep95_pw p"
  unfolding cep95_pw_def
  by (simp add: diff_divide_distrib split: if_splits)


lemma cep95_knots:
  "k < 8 \<Longrightarrow> cep95_from_conf (fst (CEP95_TABLE ! k)) = Inr (snd (CEP95_TABLE ! k))"
proof -
  assume "k < 8"
  then consider "k = 0" | "k = 1" | "k = 2" | "k = 3" | "k = 4" | "k = 5" | "k = 6" | "k = 7"
    by linarith
  then show ?thesis
    by cases (simp_all add: cep95_eq_pw cep95_pw_def table_nth table_nth_Suc)
qed

lemma cep95_interp:
  assumes "k < 7" and "fst (CEP95_TABLE ! k) \<le> p" and "p \<le> fst (CEP95_TABLE ! (k + 1))"
  shows "cep95_from_conf p =
           Inr (snd (CEP95_TABLE ! k) +
                (p - fst (CEP95_TABLE ! k)) / (fst (CEP95_TABLE ! (k + 1)) - fst (CEP95_TABLE ! k))
                  * (snd (CEP95_TABLE ! (k + 1)) - snd (CEP95_TABLE ! k)))"
proof -
  from assms(1) consider "k = 0" | "k = 1" | "k = 2" | "k = 3" | "k = 4" | "k = 5" | "k = 6"
    by linarith
  then show ?thesis
  proof cases
    case 1 with assms(2,3) show ?thesis
      by (simp add: cep95_eq_pw cep95_pw_def table_nth table_nth_Suc diff_divide_distrib)
  next
    case 2 with assms(2,3) show ?thesis
      by (simp add: cep95_eq_pw cep95_pw_def table_nth table_nth_Suc diff_divide_distrib)
  next
    case 3 with assms(2,3) show ?thesis
      by (simp add: cep95_eq_pw cep95_pw_def table_nth table_nth_Suc diff_divide_distrib)
  next
    case 4 with assms(2,3) show ?thesis
      by (simp add: cep95_eq_pw cep95_pw_def table_nth table_nth_Suc diff_divide_distrib)
  next
    case 5 with assms(2,3) show ?thesis
      by (simp add: cep95_eq_pw cep95_pw_def table_nth table_nth_Suc diff_divide_distrib)
  next
    case 6 with assms(2,3) show ?thesis
      by (simp add: cep95_eq_pw cep95_pw_def table_nth table_nth_Suc diff_divide_distrib)
  next
    case 7 with assms(2,3) show ?thesis
      by (simp add: cep95_eq_pw cep95_pw_def table_nth table_nth_Suc diff_divide_distrib)
  qed
qed

text \<open>
  Claim C6. \<^verbatim>\<open>cep95_from_conf\<close> returns 7.4 for every \<open>p\<close> below 0.05 and 0.9 for
  every \<open>p\<close> above 0.98; it returns the table radius at each of the 8 knots, in
  particular at 0, 1 and 0.80; between two adjacent knots it is the linear
  interpolation of their radii; and it is monotone non-increasing on \<open>[0, 1]\<close>. It
  never reads past the end of the table.
\<close>

theorem cep95_from_conf_table:
  "(\<forall>p. p < 0.05 \<longrightarrow> cep95_from_conf p = Inr 7.4) \<and>
   (\<forall>p. p > 0.98 \<longrightarrow> cep95_from_conf p = Inr 0.9) \<and>
   (\<forall>k. k < 8 \<longrightarrow> cep95_from_conf (fst (CEP95_TABLE ! k)) = Inr (snd (CEP95_TABLE ! k))) \<and>
   cep95_from_conf 0 = Inr 7.4 \<and> cep95_from_conf 1 = Inr 0.9 \<and>
   cep95_from_conf 0.80 = Inr 2.5 \<and>
   (\<forall>k p. k < 7 \<and> fst (CEP95_TABLE ! k) \<le> p \<and> p \<le> fst (CEP95_TABLE ! (k + 1)) \<longrightarrow>
      cep95_from_conf p =
        Inr (snd (CEP95_TABLE ! k) +
             (p - fst (CEP95_TABLE ! k)) / (fst (CEP95_TABLE ! (k + 1)) - fst (CEP95_TABLE ! k))
               * (snd (CEP95_TABLE ! (k + 1)) - snd (CEP95_TABLE ! k)))) \<and>
   (\<forall>p q. 0 \<le> p \<and> p \<le> q \<and> q \<le> 1 \<longrightarrow>
      (\<exists>a b. cep95_from_conf p = Inr a \<and> cep95_from_conf q = Inr b \<and> b \<le> a))"
proof (intro conjI allI impI)
  fix p :: real assume "p < 0.05"
  then show "cep95_from_conf p = Inr 7.4" by (simp add: cep95_eq_pw cep95_pw_def)
next
  fix p :: real assume "p > 0.98"
  then show "cep95_from_conf p = Inr 0.9" by (simp add: cep95_eq_pw cep95_pw_def)
next
  fix k :: nat assume "k < 8"
  then show "cep95_from_conf (fst (CEP95_TABLE ! k)) = Inr (snd (CEP95_TABLE ! k))"
    by (rule cep95_knots)
next
  show "cep95_from_conf 0 = Inr 7.4" by (simp add: cep95_eq_pw cep95_pw_def)
next
  show "cep95_from_conf 1 = Inr 0.9" by (simp add: cep95_eq_pw cep95_pw_def)
next
  show "cep95_from_conf 0.80 = Inr 2.5" by (simp add: cep95_eq_pw cep95_pw_def)
next
  fix k :: nat and p :: real
  assume "k < 7 \<and> fst (CEP95_TABLE ! k) \<le> p \<and> p \<le> fst (CEP95_TABLE ! (k + 1))"
  then show "cep95_from_conf p =
        Inr (snd (CEP95_TABLE ! k) +
             (p - fst (CEP95_TABLE ! k)) / (fst (CEP95_TABLE ! (k + 1)) - fst (CEP95_TABLE ! k))
               * (snd (CEP95_TABLE ! (k + 1)) - snd (CEP95_TABLE ! k)))"
    by (intro cep95_interp) simp_all
next
  fix p q :: real
  assume "0 \<le> p \<and> p \<le> q \<and> q \<le> 1"
  then have "cep95_pw q \<le> cep95_pw p" by (intro cep95_pw_antimono) simp
  then show "\<exists>a b. cep95_from_conf p = Inr a \<and> cep95_from_conf q = Inr b \<and> b \<le> a"
    by (simp add: cep95_eq_pw)
qed

theorem cep95_from_conf_table_witness:
  "cep95_from_conf 0.01 = Inr 7.4 \<and> cep95_from_conf 0.99 = Inr 0.9 \<and>
   cep95_from_conf (fst (CEP95_TABLE ! 2)) = Inr 4.3 \<and>
   cep95_from_conf 0.11 = Inr 6.75 \<and>
   (\<exists>a b. cep95_from_conf 0.3 = Inr a \<and> cep95_from_conf 0.9 = Inr b \<and> b \<le> a)"
proof -
  note T = cep95_from_conf_table
  have a: "cep95_from_conf 0.01 = Inr 7.4"
    using T[THEN conjunct1, rule_format, of "0.01"] by simp
  have b: "cep95_from_conf 0.99 = Inr 0.9"
    using T[THEN conjunct2, THEN conjunct1, rule_format, of "0.99"] by simp
  have c: "cep95_from_conf (fst (CEP95_TABLE ! 2)) = Inr 4.3"
    using T[THEN conjunct2, THEN conjunct2, THEN conjunct1, rule_format, of 2]
    by (simp add: CEP95_TABLE_def)
  have d: "cep95_from_conf 0.11 = Inr 6.75"
    using T[THEN conjunct2, THEN conjunct2, THEN conjunct2, THEN conjunct2, THEN conjunct2,
            THEN conjunct2, THEN conjunct1, rule_format, of 0 "0.11"]
    by (simp add: CEP95_TABLE_def)
  have e: "\<exists>a b. cep95_from_conf 0.3 = Inr a \<and> cep95_from_conf 0.9 = Inr b \<and> b \<le> a"
    using T[THEN conjunct2, THEN conjunct2, THEN conjunct2, THEN conjunct2, THEN conjunct2,
            THEN conjunct2, THEN conjunct2, rule_format, of "0.3" "0.9"]
    by simp
  from a b c d e show ?thesis by blast
qed


subsection \<open>The adaptive Kalman filter\<close>

lemma accumulate_sum_list: "accumulate xs a = a + sum_list xs"
  unfolding accumulate_def by (induction xs arbitrary: a) simp_all

lemma sum_sq_dev_fold: "fold (\<lambda>r var. var + (r - m)\<^sup>2) xs a = a + (\<Sum>x\<leftarrow>xs. (x - m)\<^sup>2)"
  by (induction xs arbitrary: a) (simp_all add: add.assoc)

lemma sum_sq_dev_sum_list: "sum_sq_dev xs m = (\<Sum>x\<leftarrow>xs. (x - m)\<^sup>2)"
  unfolding sum_sq_dev_def by (simp add: sum_sq_dev_fold)

lemma sum_sq_dev_nonneg: "0 \<le> sum_sq_dev xs m"
  unfolding sum_sq_dev_sum_list by (induction xs) simp_all

lemma computeRSSIStdDev_nonneg: "0 \<le> computeRSSIStdDev kf"
  unfolding computeRSSIStdDev_def by (simp add: Let_def sum_sq_dev_nonneg)

lemma computeResidualVariance_nonneg: "0 \<le> computeResidualVariance kf"
  unfolding computeResidualVariance_def by (simp add: Let_def sum_sq_dev_nonneg)

lemma length_push_trim: "length (push_trim v x) = (if length v < max_buffer then length v + 1 else length v)"
  unfolding push_trim_def by (simp add: Let_def)

lemma step_rssi_vals:
  "rssi_vals (fst (sequence_step kf a b r d)) = push_trim (rssi_vals kf) r"
  by (simp add: sequence_step_def Let_def update_P_def predict_P_def adapt_Q_def
      adapt_sigma_def store_rssi_def)

lemma step_residuals:
  "residuals (fst (sequence_step kf a b r d)) =
     push_trim (residuals kf) (r - (a + obs_X kf d * b))"
  by (simp add: sequence_step_def Let_def update_P_def predict_P_def adapt_Q_def
      adapt_sigma_def store_rssi_def obs_X_def)

lemma step_sigma:
  "kf_sigma (fst (sequence_step kf a b r d)) =
     (if min_required_points \<le> length (push_trim (rssi_vals kf) r)
      then beta * computeRSSIStdDev (store_rssi kf r) else kf_sigma kf)"
  by (simp add: sequence_step_def Let_def update_P_def predict_P_def adapt_Q_def
      adapt_sigma_def store_rssi_def)

lemma step_Q:
  "Q00 (fst (sequence_step kf a b r d)) =
     (if min_required_points \<le> length (residuals kf)
      then alpha * computeResidualVariance kf else Q00 kf)"
  "Q11 (fst (sequence_step kf a b r d)) =
     (if min_required_points \<le> length (residuals kf)
      then alpha * (computeResidualVariance kf / 100) else Q11 kf)"
  "Q01 (fst (sequence_step kf a b r d)) = Q01 kf"
  "Q10 (fst (sequence_step kf a b r d)) = Q10 kf"
  by (simp_all add: sequence_step_def Let_def update_P_def predict_P_def adapt_Q_def
      adapt_sigma_def store_rssi_def computeResidualVariance_def)


lemma kalman_run_Nil: "kalman_run kf [] = kf"
  by (simp add: kalman_run_def)

lemma kalman_run_Cons:
  "kalman_run kf ((a, b, r, d) # calls) = kalman_run (fst (sequence_step kf a b r d)) calls"
  by (simp add: kalman_run_def)

lemma kalman_run_snoc:
  "kalman_run kf (calls @ [(a, b, r, d)]) = fst (sequence_step (kalman_run kf calls) a b r d)"
  by (simp add: kalman_run_def)

lemma const_list_replicate: "\<forall>x\<in>set w. x = c \<Longrightarrow> w = replicate (length w) c"
  by (induction w) simp_all

lemma degenerate_window:
  assumes "\<forall>x\<in>set w. x = (c::real)" and "w \<noteq> []"
  shows "(\<Sum>x\<leftarrow>w. (x - sum_list w / real (length w))\<^sup>2) = 0"
proof -
  have w: "w = replicate (length w) c" using assms(1) by (rule const_list_replicate)
  have "sum_list w = real (length w) * c"
    by (subst w) (simp add: sum_list_replicate)
  then have mean: "sum_list w / real (length w) = c" using assms(2) by simp
  have "map (\<lambda>x. (x - c)\<^sup>2) w = map (\<lambda>x. 0) w"
    using assms(1) by (intro map_cong) simp_all
  then have "(\<Sum>x\<leftarrow>w. (x - c)\<^sup>2) = (\<Sum>x\<leftarrow>w. 0)" by (rule arg_cong)
  then show ?thesis unfolding mean by simp
qed

lemma stddev_sum_list:
  "min_required_points \<le> length (rssi_vals kf) \<Longrightarrow>
   computeRSSIStdDev kf =
     sqrt ((\<Sum>x\<leftarrow>rssi_vals kf. (x - sum_list (rssi_vals kf) / real (length (rssi_vals kf)))\<^sup>2)
             / real (length (rssi_vals kf)))"
  by (simp add: computeRSSIStdDev_def Let_def accumulate_sum_list sum_sq_dev_sum_list)

lemma run_invariant:
  "length (rssi_vals (kalman_run KalmanFilter_init calls)) =
     length (residuals (kalman_run KalmanFilter_init calls)) \<and>
   (length (residuals (kalman_run KalmanFilter_init calls)) < min_required_points \<longrightarrow>
      Q00 (kalman_run KalmanFilter_init calls) = (0.0025)\<^sup>2 \<and>
      Q11 (kalman_run KalmanFilter_init calls) = (0.0001)\<^sup>2 \<and>
      kf_sigma (kalman_run KalmanFilter_init calls) = 4) \<and>
   (min_required_points < length (residuals (kalman_run KalmanFilter_init calls)) \<longrightarrow>
      Q11 (kalman_run KalmanFilter_init calls) = Q00 (kalman_run KalmanFilter_init calls) / 100) \<and>
   Q01 (kalman_run KalmanFilter_init calls) = 0 \<and>
   Q10 (kalman_run KalmanFilter_init calls) = 0 \<and>
   0 \<le> kf_sigma (kalman_run KalmanFilter_init calls)"
proof (induction calls rule: rev_induct)
  case Nil
  show ?case by (simp add: kalman_run_Nil KalmanFilter_init_def min_required_points_def)
next
  case (snoc c calls)
  obtain a b r d where c: "c = (a, b, r, d)" by (cases c) auto
  let ?k = "kalman_run KalmanFilter_init calls"
  from snoc have len: "length (rssi_vals ?k) = length (residuals ?k)" by simp
  show ?case
    unfolding c kalman_run_snoc
    using snoc
    by (auto simp: step_rssi_vals step_residuals step_sigma step_Q length_push_trim len
        min_required_points_def max_buffer_def alpha_def beta_def
        computeRSSIStdDev_nonneg)
qed

text \<open>
  The source tests the RSSI window after the new value has been stored and the
  residual window before the new residual is stored. So the call that brings the
  RSSI window to five samples already adapts \<open>sigma\<close>, and \<open>Q\<close> is first adapted by
  the call that finds five residuals.
\<close>

lemma sigma_adapts_on_fifth_sample:
  "length (rssi_vals kf) = 4 \<Longrightarrow>
   kf_sigma (fst (sequence_step kf a b r d)) = beta * computeRSSIStdDev (store_rssi kf r)"
  by (simp add: step_sigma length_push_trim max_buffer_def min_required_points_def)

text \<open>
  Claim C7, the adaptation gate. For one call of \<^verbatim>\<open>sequence_step\<close>: if the RSSI
  window holds fewer than 5 samples once the call has stored its value, \<open>sigma\<close> is
  unchanged; if the residual window holds fewer than 5 samples, \<open>Q\<close> is unchanged;
  when the residual-window adaptation fires, \<open>Q[1][1] = Q[0][0] / 100\<close>; the
  off-diagonal entries of \<open>Q\<close> are never written. For a filter driven from its initial
  state by any sequence of calls: while both windows hold fewer than 5 samples, \<open>Q\<close>
  and \<open>sigma\<close> have their initial values; once the residual window holds more than 5
  samples (the adaptation has fired), \<open>Q[1][1] = Q[0][0] / 100\<close>; the off-diagonal
  entries of \<open>Q\<close> are zero.
\<close>

theorem adaptation_gate:
  "(length (rssi_vals (fst (sequence_step kf a b r d))) < min_required_points \<longrightarrow>
      kf_sigma (fst (sequence_step kf a b r d)) = kf_sigma kf) \<and>
   (length (residuals kf) < min_required_points \<longrightarrow>
      Q00 (fst (sequence_step kf a b r d)) = Q00 kf \<and>
      Q11 (fst (sequence_step kf a b r d)) = Q11 kf) \<and>
   (min_required_points \<le> length (residuals kf) \<longrightarrow>
      Q11 (fst (sequence_step kf a b r d)) = Q00 (fst (sequence_step kf a b r d)) / 100) \<and>
   Q01 (fst (sequence_step kf a b r d)) = Q01 kf \<and>
   Q10 (fst (sequence_step kf a b r d)) = Q10 kf \<and>
   (length (rssi_vals (kalman_run KalmanFilter_init calls)) < min_required_points \<and>
    length (residuals (kalman_run KalmanFilter_init calls)) < min_required_points \<longrightarrow>
      Q00 (kalman_run KalmanFilter_init calls) = (0.0025)\<^sup>2 \<and>
      Q11 (kalman_run KalmanFilter_init calls) = (0.0001)\<^sup>2 \<and>
      kf_sigma (kalman_run KalmanFilter_init calls) = 4) \<and>
   (min_required_points < length (residuals (kalman_run KalmanFilter_init calls)) \<longrightarrow>
      Q11 (kalman_run KalmanFilter_init calls) = Q00 (kalman_run KalmanFilter_init calls) / 100) \<and>
   Q01 (kalman_run KalmanFilter_init calls) = 0 \<and>
   Q10 (kalman_run KalmanFilter_init calls) = 0"
proof -
  have step: "length (rssi_vals (fst (sequence_step kf a b r d))) < min_required_points \<longrightarrow>
      kf_sigma (fst (sequence_step kf a b r d)) = kf_sigma kf"
    by (simp add: step_sigma step_rssi_vals)
  have q: "length (residuals kf) < min_required_points \<longrightarrow>
      Q00 (fst (sequence_step kf a b r d)) = Q00 kf \<and>
      Q11 (fst (sequence_step kf a b r d)) = Q11 kf"
    by (simp add: step_Q)
  have ratio: "min_required_points \<le> length (residuals kf) \<longrightarrow>
      Q11 (fst (sequence_step kf a b r d)) = Q00 (fst (sequence_step kf a b r d)) / 100"
    by (simp add: step_Q)
  have off: "Q01 (fst (sequence_step kf a b r d)) = Q01 kf"
    "Q10 (fst (sequence_step kf a b r d)) = Q10 kf"
    by (simp_all add: step_Q)
  from step q ratio off run_invariant[of calls] show ?thesis by blast
qed

theorem adaptation_gate_witness:
  "kf_sigma (fst (sequence_step KalmanFilter_init (- 59) 2 (- 61) 3)) = 4 \<and>
   Q00 (fst (sequence_step KalmanFilter_init (- 59) 2 (- 61) 3)) = (0.0025)\<^sup>2 \<and>
   Q11 (fst (sequence_step KalmanFilter_init (- 59) 2 (- 61) 3)) = (0.0001)\<^sup>2 \<and>
   Q11 (fst (sequence_step (KalmanFilter_init\<lparr>residuals := [1, 2, 3, 4, 5]\<rparr>) (- 59) 2 (- 61) 3))
     = Q00 (fst (sequence_step (KalmanFilter_init\<lparr>residuals := [1, 2, 3, 4, 5]\<rparr>) (- 59) 2 (- 61) 3)) / 100 \<and>
   kf_sigma (kalman_run KalmanFilter_init [(- 59, 2, - 61, 3), (- 59, 2, - 60, 3)]) = 4 \<and>
   Q11 (kalman_run KalmanFilter_init (replicate 6 (- 59, 2, - 61, 3)))
     = Q00 (kalman_run KalmanFilter_init (replicate 6 (- 59, 2, - 61, 3))) / 100"
proof -
  have l1: "length (rssi_vals (fst (sequence_step KalmanFilter_init (- 59) 2 (- 61) 3)))
              < min_required_points"
    by (simp add: step_rssi_vals KalmanFilter_init_def push_trim_def max_buffer_def
        min_required_points_def)
  have l2: "length (residuals KalmanFilter_init) < min_required_points"
    by (simp add: KalmanFilter_init_def min_required_points_def)
  have l3: "min_required_points \<le> length (residuals (KalmanFilter_init\<lparr>residuals := [1, 2, 3, 4, 5]\<rparr>))"
    by (simp add: min_required_points_def)
  have l4: "length (rssi_vals (kalman_run KalmanFilter_init [(- 59, 2, - 61, 3), (- 59, 2, - 60, 3)]))
              < min_required_points \<and>
            length (residuals (kalman_run KalmanFilter_init [(- 59, 2, - 61, 3), (- 59, 2, - 60, 3)]))
              < min_required_points"
    by (simp add: kalman_run_Cons kalman_run_Nil step_rssi_vals step_residuals
        KalmanFilter_init_def length_push_trim max_buffer_def min_required_points_def)
  have l5: "min_required_points
              < length (residuals (kalman_run KalmanFilter_init (replicate 6 (- 59, 2, - 61, 3))))"
    by (simp add: numeral_eq_Suc kalman_run_Cons kalman_run_Nil step_residuals
        KalmanFilter_init_def length_push_trim max_buffer_def min_required_points_def)
  note g1 = adaptation_gate[of KalmanFilter_init "- 59" 2 "- 61" 3
              "[(- 59, 2, - 61, 3), (- 59, 2, - 60, 3)]"]
  note g2 = adaptation_gate[of "KalmanFilter_init\<lparr>residuals := [1, 2, 3, 4, 5]\<rparr>" "- 59" 2 "- 61" 3
              "replicate 6 (- 59, 2, - 61, 3)"]
  from g1 l1 l2 l4 have
    "kf_sigma (fst (sequence_step KalmanFilter_init (- 59) 2 (- 61) 3)) = kf_sigma KalmanFilter_init"
    "Q00 (fst (sequence_step KalmanFilter_init (- 59) 2 (- 61) 3)) = Q00 KalmanFilter_init"
    "Q11 (fst (sequence_step KalmanFilter_init (- 59) 2 (- 61) 3)) = Q11 KalmanFilter_init"
    "kf_sigma (kalman_run KalmanFilter_init [(- 59, 2, - 61, 3), (- 59, 2, - 60, 3)]) = 4"
    by blast+
  moreover from g2 l3 l5 have
    "Q11 (fst (sequence_step (KalmanFilter_init\<lparr>residuals := [1, 2, 3, 4, 5]\<rparr>) (- 59) 2 (- 61) 3))
     = Q00 (fst (sequence_step (KalmanFilter_init\<lparr>residuals := [1, 2, 3, 4, 5]\<rparr>) (- 59) 2 (- 61) 3)) / 100"
    "Q11 (kalman_run KalmanFilter_init (replicate 6 (- 59, 2, - 61, 3)))
     = Q00 (kalman_run KalmanFilter_init (replicate 6 (- 59, 2, - 61, 3))) / 100"
    by blast+
  ultimately show ?thesis by (simp add: KalmanFilter_init_def)
qed

text \<open>
  Claim C3 states that a degenerate window leaves \<open>sigma\<close> at its prior value and
  that \<open>sigma > 0\<close> after every step. Five calls with the same RSSI from the initial
  state: after the fourth \<open>sigma\<close> is still 4, after the fifth it is 0.
\<close>

theorem sigma_degenerate_counterexample:
  "kf_sigma (kalman_run KalmanFilter_init
      [(- 59, 2, - 59, 1), (- 59, 2, - 59, 1), (- 59, 2, - 59, 1), (- 59, 2, - 59, 1)]) = 4 \<and>
   kf_sigma (kalman_run KalmanFilter_init
      [(- 59, 2, - 59, 1), (- 59, 2, - 59, 1), (- 59, 2, - 59, 1), (- 59, 2, - 59, 1),
       (- 59, 2, - 59, 1)]) = 0"
  by (simp add: kalman_run_Cons kalman_run_Nil step_sigma step_rssi_vals store_rssi_def
      computeRSSIStdDev_def accumulate_def sum_sq_dev_def push_trim_def Let_def
      KalmanFilter_init_def max_buffer_def min_required_points_def beta_def)

text \<open>
  Claim C3, as the code has it. In every \<^verbatim>\<open>sequence_step\<close>, when the RSSI window
  (with the new value stored) holds at least 5 samples, \<open>sigma\<close> is set to 0.8 times
  the population standard deviation of the window, and otherwise keeps its prior
  value. There is no guard for a zero deviation: a window of at least 5 identical
  values sets \<open>sigma\<close> to 0. A non-negative \<open>sigma\<close> stays non-negative, so
  \<open>sigma \<ge> 0\<close> after every step from the initial 4.0.
\<close>

theorem sigma_update:
  "kf_sigma (fst (sequence_step kf a b r d)) =
     (if 5 \<le> length (push_trim (rssi_vals kf) r)
      then 0.8 * sqrt ((\<Sum>x\<leftarrow>push_trim (rssi_vals kf) r.
                          (x - sum_list (push_trim (rssi_vals kf) r)
                                 / real (length (push_trim (rssi_vals kf) r)))\<^sup>2)
                       / real (length (push_trim (rssi_vals kf) r)))
      else kf_sigma kf) \<and>
   (5 \<le> length (push_trim (rssi_vals kf) r) \<and> (\<forall>x\<in>set (push_trim (rssi_vals kf) r). x = c)
      \<longrightarrow> kf_sigma (fst (sequence_step kf a b r d)) = 0) \<and>
   (0 \<le> kf_sigma kf \<longrightarrow> 0 \<le> kf_sigma (fst (sequence_step kf a b r d))) \<and>
   0 \<le> kf_sigma (kalman_run KalmanFilter_init calls)"
proof -
  let ?w = "push_trim (rssi_vals kf) r"
  have w: "rssi_vals (store_rssi kf r) = ?w" by (simp add: store_rssi_def)
  have eq: "kf_sigma (fst (sequence_step kf a b r d)) =
     (if 5 \<le> length ?w
      then 0.8 * sqrt ((\<Sum>x\<leftarrow>?w. (x - sum_list ?w / real (length ?w))\<^sup>2) / real (length ?w))
      else kf_sigma kf)"
    using stddev_sum_list[of "store_rssi kf r"]
    by (simp add: step_sigma w min_required_points_def beta_def)
  have deg: "kf_sigma (fst (sequence_step kf a b r d)) = 0"
    if "5 \<le> length ?w \<and> (\<forall>x\<in>set ?w. x = c)"
  proof -
    from that have "?w \<noteq> []" by auto
    with that have "(\<Sum>x\<leftarrow>?w. (x - sum_list ?w / real (length ?w))\<^sup>2) = 0"
      by (intro degenerate_window[of ?w c]) simp_all
    with that show ?thesis by (simp add: eq)
  qed
  have nonneg: "0 \<le> kf_sigma (fst (sequence_step kf a b r d))" if "0 \<le> kf_sigma kf"
    using that by (simp add: step_sigma beta_def computeRSSIStdDev_nonneg)
  from eq deg nonneg run_invariant[of calls] show ?thesis by blast
qed

theorem sigma_update_witness:
  "kf_sigma (fst (sequence_step (KalmanFilter_init\<lparr>rssi_vals := [- 59, - 59, - 59, - 59]\<rparr>)
                    (- 59) 2 (- 59) 1)) = 0 \<and>
   0 \<le> kf_sigma (fst (sequence_step KalmanFilter_init (- 59) 2 (- 59) 1))"
proof -
  let ?kf = "KalmanFilter_init\<lparr>rssi_vals := [- 59, - 59, - 59, - 59]\<rparr>"
  have h1: "5 \<le> length (push_trim (rssi_vals ?kf) (- 59)) \<and>
            (\<forall>x\<in>set (push_trim (rssi_vals ?kf) (- 59)). x = - 59)"
    by (simp add: push_trim_def max_buffer_def)
  have h2: "0 \<le> kf_sigma KalmanFilter_init" by (simp add: KalmanFilter_init_def)
  from sigma_update[of ?kf "- 59" 2 "- 59" 1 "- 59" "[]"] h1
  have "kf_sigma (fst (sequence_step ?kf (- 59) 2 (- 59) 1)) = 0" by blast
  moreover from sigma_update[of KalmanFilter_init "- 59" 2 "- 59" 1 0 "[]"] h2
  have "0 \<le> kf_sigma (fst (sequence_step KalmanFilter_init (- 59) 2 (- 59) 1))" by blast
  ultimately show ?thesis by simp
qed


subsection \<open>Anchor parameter updates\<close>

lemma step_output:
  "snd (sequence_step kf a b r d) =
     (let kfp = predict_P (adapt_Q (adapt_sigma (store_rssi kf r)));
          X = obs_X kf d;
          resid = r - (a + X * b);
          S = innov_S kfp X
      in (a + (P00 kfp + P01 kfp * X) / S * resid,
          b + (P10 kfp + P11 kfp * X) / S * resid))"
  by (simp add: sequence_step_def Let_def gain_K_def innov_S_def obs_X_def predict_P_def
      adapt_Q_def adapt_sigma_def store_rssi_def)

lemma init_predicted:
  "predict_P (adapt_Q (adapt_sigma (store_rssi KalmanFilter_init r))) =
     KalmanFilter_init\<lparr>P00 := 1 + (0.0025)\<^sup>2, P11 := 0.1 + (0.0001)\<^sup>2, rssi_vals := [r]\<rparr>"
  by (simp add: predict_P_def adapt_Q_def adapt_sigma_def store_rssi_def push_trim_def
      KalmanFilter_init_def max_buffer_def min_required_points_def)

lemma init_fields:
  "Q00 KalmanFilter_init = (0.0025)\<^sup>2" "Q01 KalmanFilter_init = 0"
  "Q10 KalmanFilter_init = 0" "Q11 KalmanFilter_init = (0.0001)\<^sup>2"
  "P00 KalmanFilter_init = 1" "P01 KalmanFilter_init = 0"
  "P10 KalmanFilter_init = 0" "P11 KalmanFilter_init = 0.1"
  "kf_d_0 KalmanFilter_init = 1" "kf_sigma KalmanFilter_init = 4"
  "residuals KalmanFilter_init = []" "rssi_vals KalmanFilter_init = []"
  by (simp_all add: KalmanFilter_init_def)

lemma obs_X_init_10: "obs_X KalmanFilter_init 10 = - 10"
  by (simp add: obs_X_def KalmanFilter_init_def)

lemma obs_X_init_1: "obs_X KalmanFilter_init 1 = 0"
  by (simp add: obs_X_def KalmanFilter_init_def)

text \<open>
  Claim C4 states that after any \<^verbatim>\<open>update_parameters\<close> the anchor's \<open>rssi0\<close> is
  non-positive and its \<open>n\<close> is positive. A fresh anchor that hears -20 dBm at 10 m
  gets a negative \<open>n\<close>; one that is given the reading 2000 at 1 m gets a positive
  \<open>rssi0\<close>.
\<close>

theorem update_parameters_counterexample:
  "n_exp (update_parameters (Anchor_new ''a1'' (0, 0, 0) 0) (- 20) 10) < 0 \<and>
   RSSI_0 (update_parameters (Anchor_new ''a1'' (0, 0, 0) 0) 2000 1) > 0"
  by (simp add: update_parameters_def Anchor_new_def step_output init_predicted
      obs_X_init_10 obs_X_init_1 innov_S_def Let_def init_fields power2_eq_square)


lemma gain_contracts_residual:
  fixes S :: real
  assumes "S \<noteq> 0" and "S = p + X * q + s2"
  shows "r - ((a + p / S * (r - (a + X * b))) + X * (b + q / S * (r - (a + X * b))))
           = (r - (a + X * b)) * s2 / S"
proof -
  define e where "e = r - (a + X * b)"
  have "r - ((a + p / S * e) + X * (b + q / S * e)) = e - (p + X * q) / S * e"
    unfolding e_def using assms(1) by (simp add: field_simps)
  also have "\<dots> = (e * S - (p + X * q) * e) / S"
    using assms(1) by (simp add: field_simps)
  also have "e * S - (p + X * q) * e = e * s2"
    by (simp add: assms(2) algebra_simps)
  finally show ?thesis unfolding e_def .
qed

lemma residual_after_update:
  assumes "innov_S kfp X \<noteq> 0"
  shows "r - ((a + (P00 kfp + P01 kfp * X) / innov_S kfp X * (r - (a + X * b))) +
              X * (b + (P10 kfp + P11 kfp * X) / innov_S kfp X * (r - (a + X * b))))
         = (r - (a + X * b)) * (kf_sigma kfp)\<^sup>2 / innov_S kfp X"
  using assms by (intro gain_contracts_residual) (simp_all add: innov_S_def)

text \<open>
  Claim C4, as the code has it. \<^verbatim>\<open>update_parameters\<close> stores the pair the Kalman
  step returns, without clamping or rejecting it: with the predicted covariance
  \<open>P\<close>, the observation row \<open>[1, X]\<close>, the residual \<open>resid = r - (rssi0 + X n)\<close> and
  the innovation variance \<open>S \<noteq> 0\<close>, the new values are
  \<open>rssi0 + (P00 + P01 X) / S * resid\<close> and \<open>n + (P10 + P11 X) / S * resid\<close>, and under
  them the residual of the same reading is \<open>resid * sigma\<^sup>2 / S\<close>. They are the old
  values when the reading equals the prediction. The MAC address, the coordinates,
  \<open>ewma\<close> and \<open>last_seen\<close> are not touched.
\<close>

theorem update_parameters_unclamped:
  "(let kfp = predict_P (adapt_Q (adapt_sigma (store_rssi (kalman an) r)));
        X = obs_X (kalman an) d;
        resid = r - (RSSI_0 an + X * n_exp an);
        S = innov_S kfp X
    in mac_address (update_parameters an r d) = mac_address an \<and>
       coord (update_parameters an r d) = coord an \<and>
       ewma (update_parameters an r d) = ewma an \<and>
       last_seen (update_parameters an r d) = last_seen an \<and>
       (S \<noteq> 0 \<longrightarrow>
          RSSI_0 (update_parameters an r d) = RSSI_0 an + (P00 kfp + P01 kfp * X) / S * resid \<and>
          n_exp (update_parameters an r d) = n_exp an + (P10 kfp + P11 kfp * X) / S * resid \<and>
          r - (RSSI_0 (update_parameters an r d) + X * n_exp (update_parameters an r d))
            = resid * (kf_sigma kfp)\<^sup>2 / S) \<and>
       (S \<noteq> 0 \<and> resid = 0 \<longrightarrow>
          RSSI_0 (update_parameters an r d) = RSSI_0 an \<and>
          n_exp (update_parameters an r d) = n_exp an))"
proof -
  let ?kfp = "predict_P (adapt_Q (adapt_sigma (store_rssi (kalman an) r)))"
  let ?X = "obs_X (kalman an) d"
  let ?resid = "r - (RSSI_0 an + ?X * n_exp an)"
  let ?S = "innov_S ?kfp ?X"
  have frame: "mac_address (update_parameters an r d) = mac_address an"
    "coord (update_parameters an r d) = coord an"
    "ewma (update_parameters an r d) = ewma an"
    "last_seen (update_parameters an r d) = last_seen an"
    by (simp_all add: update_parameters_def Let_def)
  have new: "RSSI_0 (update_parameters an r d) = RSSI_0 an + (P00 ?kfp + P01 ?kfp * ?X) / ?S * ?resid"
    "n_exp (update_parameters an r d) = n_exp an + (P10 ?kfp + P11 ?kfp * ?X) / ?S * ?resid"
    by (simp_all add: update_parameters_def step_output Let_def)
  have post: "r - (RSSI_0 (update_parameters an r d) + ?X * n_exp (update_parameters an r d))
            = ?resid * (kf_sigma ?kfp)\<^sup>2 / ?S" if "?S \<noteq> 0"
    unfolding new using that by (rule residual_after_update)
  have same: "RSSI_0 (update_parameters an r d) = RSSI_0 an \<and>
              n_exp (update_parameters an r d) = n_exp an" if "?resid = 0"
    unfolding new using that by simp
  from frame new post same show ?thesis
    unfolding Let_def by blast
qed

theorem update_parameters_unclamped_witness:
  "RSSI_0 (update_parameters (Anchor_new ''a1'' (0, 0, 0) 0) (- 59) 1) = - 59 \<and>
   n_exp (update_parameters (Anchor_new ''a1'' (0, 0, 0) 0) (- 59) 1) = 2 \<and>
   n_exp (update_parameters (Anchor_new ''a1'' (0, 0, 0) 0) (- 20) 10)
     = 2 + (- (0.1 + (0.0001)\<^sup>2) * 10) / (27 + (0.0025)\<^sup>2 + 100 * (0.0001)\<^sup>2) * 59"
proof -
  let ?an = "Anchor_new ''a1'' (0, 0, 0) 0"
  have k: "kalman ?an = KalmanFilter_init" "RSSI_0 ?an = - 59" "n_exp ?an = 2"
    by (simp_all add: Anchor_new_def)
  have S1: "innov_S (predict_P (adapt_Q (adapt_sigma (store_rssi (kalman ?an) (- 59)))))
              (obs_X (kalman ?an) 1) \<noteq> 0"
    by (simp add: k init_predicted obs_X_init_1 innov_S_def init_fields power2_eq_square)
  have r1: "- 59 - (RSSI_0 ?an + obs_X (kalman ?an) 1 * n_exp ?an) = 0"
    by (simp add: k obs_X_init_1)
  have S2: "innov_S (predict_P (adapt_Q (adapt_sigma (store_rssi (kalman ?an) (- 20)))))
              (obs_X (kalman ?an) 10) \<noteq> 0"
    by (simp add: k init_predicted obs_X_init_10 innov_S_def init_fields power2_eq_square)
  from update_parameters_unclamped[of ?an "- 59" 1] S1 r1
  have a: "RSSI_0 (update_parameters ?an (- 59) 1) = RSSI_0 ?an \<and>
           n_exp (update_parameters ?an (- 59) 1) = n_exp ?an"
    unfolding Let_def by blast
  from update_parameters_unclamped[of ?an "- 20" 10] S2
  have b: "n_exp (update_parameters ?an (- 20) 10) =
             n_exp ?an +
             (P10 (predict_P (adapt_Q (adapt_sigma (store_rssi (kalman ?an) (- 20))))) +
              P11 (predict_P (adapt_Q (adapt_sigma (store_rssi (kalman ?an) (- 20))))) *
                obs_X (kalman ?an) 10) /
             innov_S (predict_P (adapt_Q (adapt_sigma (store_rssi (kalman ?an) (- 20)))))
               (obs_X (kalman ?an) 10) *
             (- 20 - (RSSI_0 ?an + obs_X (kalman ?an) 10 * n_exp ?an))"
    unfolding Let_def by blast
  have c: "n_exp (update_parameters ?an (- 20) 10)
     = 2 + (- (0.1 + (0.0001)\<^sup>2) * 10) / (27 + (0.0025)\<^sup>2 + 100 * (0.0001)\<^sup>2) * 59"
    unfolding b by (simp add: k init_predicted obs_X_init_10 innov_S_def init_fields power2_eq_square)
  from a c show ?thesis by (simp add: k)
qed


subsection \<open>The Student-t log-density\<close>

lemma Gamma_half_values:
  "Gamma_half 4 = 1" "Gamma_half 5 = 3 / 4 * sqrt pi" "Gamma_half 6 = 2"
  by (simp_all add: eval_nat_numeral)

lemma sdiv_values: "(6::int) sdiv 2 = 3" "(5::int) sdiv 2 = 2"
  by (simp_all add: signed_divide_int_def)

lemma Gamma_5_half_gt_1: "1 < 3 / 4 * sqrt pi"
proof -
  have "(4 / 3)\<^sup>2 < (2::real)" by (simp add: power2_eq_square)
  also have "\<dots> \<le> pi" by (rule pi_ge_two)
  finally have "sqrt ((4 / 3)\<^sup>2) < sqrt pi" by (simp only: real_sqrt_less_iff)
  then have "4 / 3 < sqrt pi" by simp
  then show ?thesis by simp
qed

text \<open>
  Claim C2 states that \<^verbatim>\<open>logpdf_student_t(z, v)\<close> is the documented formula with
  \<open>(v + 1) / 2\<close> and \<open>v / 2\<close> exact. At the default \<open>v = 5\<close> the source evaluates
  \<^verbatim>\<open>lgamma(3) - lgamma(2)\<close>, where the formula has \<open>log\<Gamma>(3) - log\<Gamma>(2.5)\<close>: for every
  \<open>z\<close> the value of the code exceeds the formula by \<open>log\<Gamma>(2.5) = ln (3/4 sqrt pi) > 0\<close>.
\<close>

theorem logpdf_student_t_integer_division:
  "logpdf_student_t z 5 = ln 2 - 1 / 2 * ln (5 * pi) - 3 * ln (1 + z * z / 5) \<and>
   logpdf_student_t_spec z 5 =
     ln 2 - ln (3 / 4 * sqrt pi) - 1 / 2 * ln (5 * pi) - 3 * ln (1 + z\<^sup>2 / 5) \<and>
   logpdf_student_t z 5 - logpdf_student_t_spec z 5 = ln (3 / 4 * sqrt pi) \<and>
   logpdf_student_t_spec z 5 < logpdf_student_t z 5"
proof -
  have code: "logpdf_student_t z 5 = ln 2 - 1 / 2 * ln (5 * pi) - 3 * ln (1 + z * z / 5)"
    by (simp add: logpdf_student_t_def lgamma_int_def Let_def sdiv_values Gamma_half_values)
  have spec: "logpdf_student_t_spec z 5 =
     ln 2 - ln (3 / 4 * sqrt pi) - 1 / 2 * ln (5 * pi) - 3 * ln (1 + z\<^sup>2 / 5)"
    by (simp add: logpdf_student_t_spec_def Gamma_half_values)
  have diff: "logpdf_student_t z 5 - logpdf_student_t_spec z 5 = ln (3 / 4 * sqrt pi)"
    unfolding code spec by (simp add: power2_eq_square)
  have "0 < ln (3 / 4 * sqrt pi)"
    using Gamma_5_half_gt_1 by (intro ln_gt_zero)
  with diff have "logpdf_student_t_spec z 5 < logpdf_student_t z 5" by linarith
  with code spec diff show ?thesis by blast
qed


subsection \<open>Selection of the significant anchors\<close>

lemma max_fold_props:
  "m \<le> fold (\<lambda>(key, value) max_rssi. if value > max_rssi then value else max_rssi) rd (m::real) \<and>
   (\<forall>x\<in>snd ` set rd.
      x \<le> fold (\<lambda>(key, value) max_rssi. if value > max_rssi then value else max_rssi) rd m) \<and>
   fold (\<lambda>(key, value) max_rssi. if value > max_rssi then value else max_rssi) rd m
     \<in> insert m (snd ` set rd)"
proof (induction rd arbitrary: m)
  case Nil
  show ?case by simp
next
  case (Cons kv rd)
  obtain k v where kv: "kv = (k, v)" by (cases kv)
  show ?case
  proof (cases "v > m")
    case True
    with Cons.IH[of v] show ?thesis by (auto simp: kv)
  next
    case False
    with Cons.IH[of m] show ?thesis by (auto simp: kv)
  qed
qed

lemma max_fold:
  "fold (\<lambda>(key, value) max_rssi. if value > max_rssi then value else max_rssi) rd (m::real)
     = Max (insert m (snd ` set rd))"
  using max_fold_props[of m rd] by (intro Max_eqI[symmetric]) auto

lemma max_rssi_of_strongest:
  assumes "rd \<noteq> []" and "\<forall>(k, v)\<in>set rd. FLT_LOWEST \<le> v"
  shows "max_rssi_of rd = strongest_rssi rd"
proof -
  have ne: "snd ` set rd \<noteq> {}" using assms(1) by simp
  have "\<forall>x\<in>snd ` set rd. FLT_LOWEST \<le> x" using assms(2) by auto
  then have "FLT_LOWEST \<le> Max (snd ` set rd)"
    using ne by (meson List.finite_set Max_ge_iff finite_imageI ex_in_conv)
  then show ?thesis
    using ne by (simp add: max_rssi_of_def max_fold strongest_rssi_def)
qed

lemma keep_fold:
  "fold (\<lambda>anchor keep.
            (case map_of rd (mac_address (h anchor)) of
               None \<Rightarrow> keep
             | Some r \<Rightarrow>
                 if r \<ge> m - 10 \<and> ewma (h anchor) < EWMA_THRESHOLD
                 then keep @ [anchor] else keep)) xs acc
   = acc @ filter (\<lambda>a. case map_of rd (mac_address (h a)) of None \<Rightarrow> False
                        | Some r \<Rightarrow> r \<ge> m - 10 \<and> ewma (h a) < EWMA_THRESHOLD) xs"
  by (induction xs arbitrary: acc) (auto split: option.splits)

lemma keep_loop_filter:
  "keep_loop h rd m xs =
     filter (\<lambda>a. case map_of rd (mac_address (h a)) of None \<Rightarrow> False
                 | Some r \<Rightarrow> r \<ge> m - 10 \<and> ewma (h a) < EWMA_THRESHOLD) xs"
  by (simp add: keep_loop_def keep_fold)

lemma keep_loop_has_reading:
  "a \<in> set (keep_loop h rd m xs) \<Longrightarrow> \<exists>r. map_of rd (mac_address (h a)) = Some r"
  by (auto simp: keep_loop_filter split: option.splits)


lemma get_significant_anchors_take:
  "get_significant_anchors srt h ts xs max_n =
     (if rssi_readings (ts_tag ts) = [] then []
      else take (size_t_of_int max_n)
             (std_sort_desc srt h (rssi_readings (ts_tag ts))
                (keep_loop h (rssi_readings (ts_tag ts))
                   (max_rssi_of (rssi_readings (ts_tag ts))) xs)))"
  by (simp add: get_significant_anchors_def Let_def)

lemma keep_loop_qualifies:
  assumes "\<forall>(k, v)\<in>set (rssi_readings (ts_tag ts)). FLT_LOWEST \<le> v"
  shows "keep_loop h (rssi_readings (ts_tag ts)) (max_rssi_of (rssi_readings (ts_tag ts))) xs
           = filter (qualifies h ts) xs"
proof (cases "rssi_readings (ts_tag ts) = []")
  case True
  then show ?thesis by (simp add: keep_loop_filter qualifies_def)
next
  case False
  then have "max_rssi_of (rssi_readings (ts_tag ts)) = strongest_rssi (rssi_readings (ts_tag ts))"
    using assms by (rule max_rssi_of_strongest)
  then show ?thesis
    unfolding keep_loop_filter
    by (intro filter_cong) (auto simp: qualifies_def EWMA_THRESHOLD_def split: option.splits)
qed

lemma size_t_of_MAX: "size_t_of_int MAX_SIGNIFICANT_ANCHORS = 5"
  by (simp add: size_t_of_int_def MAX_SIGNIFICANT_ANCHORS_def)

lemma std_sort_mset: "mset (std_sort srt key xs) = mset xs"
  using std_sort[of srt] by simp

lemma std_sort_sorted: "sorted_wrt (\<lambda>a b. key b \<le> key a) (std_sort srt key xs)"
  using std_sort[of srt] by simp

lemma std_sort_set: "set (std_sort srt key xs) = set xs"
  using std_sort_mset[of srt key xs] by (rule mset_eq_setD)

lemma std_sort_length: "length (std_sort srt key xs) = length xs"
  using std_sort_mset[of srt key xs] by (rule mset_eq_length)

lemma std_sort_Nil: "std_sort srt key [] = []"
  using std_sort_mset[of srt key "[]"] by simp

lemma std_sort_single: "std_sort srt key [a] = [a]"
  using std_sort_mset[of srt key "[a]"] by simp

text \<open>Two implementations that order a tie differently.\<close>

lemma std_sort_ties:
  "std_sort insertion_sort (\<lambda>a. 0) [0, 1] = [0, 1] \<and>
   std_sort reversing_sort (\<lambda>a. 0) [0, 1] = [1, 0]"
  by (simp add: insertion_sort.rep_eq reversing_sort.rep_eq)

lemma sort_rssi_spec:
  "sort_rssi h (rssi_readings (ts_tag ts))
     = (\<lambda>a. the (map_of (rssi_readings (ts_tag ts)) (mac_address (h a))))"
  by (rule ext) (simp add: sort_rssi_def)

lemma get_significant_anchors_sorted:
  assumes "\<forall>(k, v)\<in>set (rssi_readings (ts_tag ts)). FLT_LOWEST \<le> v"
  shows "get_significant_anchors srt h ts candidates MAX_SIGNIFICANT_ANCHORS
           = take 5 (std_sort srt (sort_rssi h (rssi_readings (ts_tag ts)))
                       (filter (qualifies h ts) candidates))"
proof (cases "rssi_readings (ts_tag ts) = []")
  case True
  then show ?thesis
    by (simp add: get_significant_anchors_take qualifies_def std_sort_Nil)
next
  case False
  then show ?thesis
    by (simp add: get_significant_anchors_take size_t_of_MAX keep_loop_qualifies[OF assms]
        std_sort_desc_def)
qed

text \<open>
  Claim C5. For every implementation of \<^verbatim>\<open>std::sort\<close> and every fix whose RSSI values are
  floats (none below the lowest float), \<^verbatim>\<open>get_significant_anchors\<close> with the
  default limit returns exactly the candidates that appear in the fix's RSSI map,
  have RSSI within 10 dB of the strongest RSSI of the fix and have EWMA strictly
  below 8, sorted by RSSI descending and truncated to at most 5 entries: the
  result is the first 5 entries of an arrangement of all these candidates in which
  RSSI never increases. Hence the result holds such candidates only, each no more
  often than the candidate list does; RSSI never increases along it; its length is
  the smaller of 5 and the number of such candidates; and no such candidate that
  the truncation leaves out has an RSSI above that of a returned one. Which of
  several candidates of equal RSSI come first is left to the implementation.
\<close>

theorem get_significant_anchors_selection:
  assumes "\<forall>(k, v)\<in>set (rssi_readings (ts_tag ts)). FLT_LOWEST \<le> v"
  shows "significant_spec h ts candidates
           (get_significant_anchors srt h ts candidates MAX_SIGNIFICANT_ANCHORS) \<and>
         set (get_significant_anchors srt h ts candidates MAX_SIGNIFICANT_ANCHORS)
           \<subseteq> {a \<in> set candidates. qualifies h ts a} \<and>
         mset (get_significant_anchors srt h ts candidates MAX_SIGNIFICANT_ANCHORS)
           \<subseteq># mset (filter (qualifies h ts) candidates) \<and>
         sorted_wrt (\<lambda>a b. the (map_of (rssi_readings (ts_tag ts)) (mac_address (h b)))
                          \<le> the (map_of (rssi_readings (ts_tag ts)) (mac_address (h a))))
           (get_significant_anchors srt h ts candidates MAX_SIGNIFICANT_ANCHORS) \<and>
         length (get_significant_anchors srt h ts candidates MAX_SIGNIFICANT_ANCHORS)
           = min 5 (length (filter (qualifies h ts) candidates)) \<and>
         (\<forall>a\<in>set (get_significant_anchors srt h ts candidates MAX_SIGNIFICANT_ANCHORS).
            \<forall>b\<in>#(mset (filter (qualifies h ts) candidates)
                    - mset (get_significant_anchors srt h ts candidates
                              MAX_SIGNIFICANT_ANCHORS)).
              the (map_of (rssi_readings (ts_tag ts)) (mac_address (h b)))
                \<le> the (map_of (rssi_readings (ts_tag ts)) (mac_address (h a))))"
proof -
  let ?rd = "rssi_readings (ts_tag ts)"
  let ?f = "\<lambda>a. the (map_of ?rd (mac_address (h a)))"
  let ?q = "filter (qualifies h ts) candidates"
  let ?res = "get_significant_anchors srt h ts candidates MAX_SIGNIFICANT_ANCHORS"
  define ys where "ys = std_sort srt ?f ?q"
  have ms: "mset ys = mset ?q" unfolding ys_def by (rule std_sort_mset)
  have so: "sorted_wrt (\<lambda>a b. ?f b \<le> ?f a) ys" unfolding ys_def by (rule std_sort_sorted)
  have res: "?res = take 5 ys"
    unfolding ys_def get_significant_anchors_sorted[OF assms] sort_rssi_spec ..
  have spec: "significant_spec h ts candidates ?res"
    unfolding significant_spec_def using ms so res by blast
  have "set ys = set ?q" using ms by (rule mset_eq_setD)
  then have sub: "set ?res \<subseteq> {a \<in> set candidates. qualifies h ts a}"
    unfolding res using set_take_subset[of 5 ys] by auto
  have split: "ys = take 5 ys @ drop 5 ys" by simp
  have "mset ys = mset (take 5 ys) + mset (drop 5 ys)"
    by (subst split) (simp only: mset_append)
  then have rest: "mset ?q - mset (take 5 ys) = mset (drop 5 ys)" and
    msub: "mset ?res \<subseteq># mset ?q"
    unfolding res using ms by simp_all
  have sorted_res: "sorted_wrt (\<lambda>a b. ?f b \<le> ?f a) ?res"
    unfolding res using so by (rule sorted_wrt_take)
  have "length ys = length ?q" using ms by (rule mset_eq_length)
  then have len: "length ?res = min 5 (length ?q)"
    unfolding res by (simp add: min.commute)
  have "sorted_wrt (\<lambda>a b. ?f b \<le> ?f a) (take 5 ys @ drop 5 ys)" using so by simp
  then have "\<forall>a\<in>set (take 5 ys). \<forall>b\<in>set (drop 5 ys). ?f b \<le> ?f a"
    unfolding sorted_wrt_append by blast
  then have cut: "\<forall>a\<in>set ?res. \<forall>b\<in>#(mset ?q - mset ?res). ?f b \<le> ?f a"
    unfolding res rest by simp
  from spec sub msub sorted_res len cut show ?thesis by blast
qed

theorem get_significant_anchors_selection_witness:
  "get_significant_anchors insertion_sort create_test_anchors test_system [0, 1, 2, 3, 4]
     MAX_SIGNIFICANT_ANCHORS = [0, 1]"
proof -
  let ?res = "get_significant_anchors insertion_sort create_test_anchors test_system
                [0, 1, 2, 3, 4] MAX_SIGNIFICANT_ANCHORS"
  let ?f = "\<lambda>a. the (map_of (rssi_readings (ts_tag test_system))
                       (mac_address (create_test_anchors a)))"
  have h: "\<forall>(k, v)\<in>set (rssi_readings (ts_tag test_system)). FLT_LOWEST \<le> v"
    by (simp add: test_system_def create_test_tag_def FLT_LOWEST_def)
  have q: "filter (qualifies create_test_anchors test_system) [0, 1, 2, 3, 4] = [0, 1]"
    by (simp add: qualifies_def strongest_rssi_def test_system_def create_test_tag_def
        create_test_anchors_def Anchor_new_def)
  have f0: "?f 0 = - 50" and f1: "?f 1 = - 60"
    by (simp_all add: test_system_def create_test_tag_def create_test_anchors_def
        Anchor_new_def)
  from get_significant_anchors_selection
         [OF h, where h = create_test_anchors and candidates = "[0, 1, 2, 3, 4]"
            and srt = insertion_sort]
  have "significant_spec create_test_anchors test_system [0, 1, 2, 3, 4] ?res" by blast
  then obtain ys where ms: "mset ys = mset [0, 1 :: nat]"
    and so: "sorted_wrt (\<lambda>a b. ?f b \<le> ?f a) ys" and res: "?res = take 5 ys"
    unfolding significant_spec_def q by blast
  from ms have "length ys = length [0, 1 :: nat]" by (rule mset_eq_length)
  then obtain a b where ys: "ys = [a, b]"
    by (cases ys; cases "tl ys") auto
  from ms have "set ys = set [0, 1 :: nat]" by (rule mset_eq_setD)
  then have "(a = 0 \<and> b = 1) \<or> (a = 1 \<and> b = 0)"
    unfolding ys by (auto simp: doubleton_eq_iff)
  moreover have "\<not> (a = 1 \<and> b = 0)"
  proof
    assume "a = 1 \<and> b = 0"
    with so have "?f 0 \<le> ?f 1" unfolding ys by simp
    then show False unfolding f0 f1 by simp
  qed
  ultimately have "a = 0 \<and> b = 1" by blast
  then show ?thesis unfolding res ys by simp
qed


subsection \<open>Maps keyed by anchor and the fields the evaluator reads\<close>

lemma umap_assign_cong:
  "(\<And>a. mac_address (h' a) = mac_address (h a)) \<Longrightarrow> umap_assign h' m k v = umap_assign h m k v"
  by (induction m) auto

lemma umap_at_cong:
  "(\<And>a. mac_address (h' a) = mac_address (h a)) \<Longrightarrow> umap_at h' m k = umap_at h m k"
  by (induction m) auto

lemma umap_at_assign:
  "umap_at h (umap_assign h m k v) k' =
     (if mac_address (h k) = mac_address (h k') then Inr v else umap_at h m k')"
  by (induction m) auto

lemma umap_assign_keys:
  "fst ` set (umap_assign h m k v) \<subseteq> insert k (fst ` set m)"
  by (induction m) (force split: if_splits)+

lemma umap_assign_macs:
  "(\<lambda>a. mac_address (h a)) ` fst ` set (umap_assign h m k v)
     = insert (mac_address (h k)) ((\<lambda>a. mac_address (h a)) ` fst ` set m)"
  by (induction m) (force split: if_splits)+

lemma umap_assign_fresh:
  "mac_address (h k) \<notin> (\<lambda>a. mac_address (h a)) ` fst ` set m \<Longrightarrow>
   umap_assign h m k v = m @ [(k, v)]"
  by (induction m) auto

lemma umap_assign_distinct_macs:
  "distinct (map (\<lambda>e. mac_address (h (fst e))) m) \<Longrightarrow>
   distinct (map (\<lambda>e. mac_address (h (fst e))) (umap_assign h m k v))"
proof (induction m)
  case Nil
  show ?case by simp
next
  case (Cons e m)
  obtain k' v' where e: "e = (k', v')" by (cases e)
  show ?case
  proof (cases "mac_address (h k') = mac_address (h k)")
    case True
    with Cons.prems show ?thesis by (simp add: e)
  next
    case False
    have "mac_address (h k') \<notin> (\<lambda>a. mac_address (h a)) ` fst ` set (umap_assign h m k v)"
      using Cons.prems False by (auto simp: umap_assign_macs e image_iff)
    then have "mac_address (h k') \<notin> (\<lambda>e. mac_address (h (fst e))) ` set (umap_assign h m k v)"
      by (auto simp: image_iff)
    with Cons False show ?thesis by (simp add: e)
  qed
qed

lemma get_significant_anchors_cong:
  assumes "\<And>a. mac_address (h' a) = mac_address (h a)" and "\<And>a. ewma (h' a) = ewma (h a)"
  shows "get_significant_anchors srt h' ts xs n = get_significant_anchors srt h ts xs n"
proof -
  have k: "keep_loop h' rd m xs = keep_loop h rd m xs" for rd m
    by (simp add: keep_loop_filter assms cong: option.case_cong)
  have "sort_rssi h' rd = sort_rssi h rd" for rd
    by (rule ext) (simp add: sort_rssi_def assms)
  then have s: "std_sort_desc srt h' rd ys = std_sort_desc srt h rd ys" for rd ys
    by (simp add: std_sort_desc_def)
  show ?thesis by (simp add: get_significant_anchors_take k s)
qed

lemma distances_fold_cong:
  assumes "\<And>a. mac_address (h' a) = mac_address (h a)" and "\<And>a. coord (h' a) = coord (h a)"
  shows "fold (\<lambda>anchor result. umap_assign h' result anchor (R3_distance (coord (h' anchor)) c)) xs m
       = fold (\<lambda>anchor result. umap_assign h result anchor (R3_distance (coord (h anchor)) c)) xs m"
  by (induction xs arbitrary: m) (simp_all add: assms umap_assign_cong[of h' h])

lemma distances_cong:
  assumes "\<And>a. mac_address (h' a) = mac_address (h a)" and "\<And>a. ewma (h' a) = ewma (h a)"
    and "\<And>a. coord (h' a) = coord (h a)"
  shows "distances srt h' ts xs = distances srt h ts xs"
  unfolding distances_def Let_def
  by (simp add: get_significant_anchors_cong[of h' h, OF assms(1,2)]
      distances_fold_cong[of h' h, OF assms(1,3)])


subsection \<open>The loops of the update orchestrator\<close>

lemma update_parameters_fields:
  "mac_address (update_parameters a r d) = mac_address a"
  "coord (update_parameters a r d) = coord a"
  "ewma (update_parameters a r d) = ewma a"
  "last_seen (update_parameters a r d) = last_seen a"
  by (simp_all add: update_parameters_def Let_def)

lemma update_health_fields:
  "mac_address (update_health a z now l) = mac_address a"
  "coord (update_health a z now l) = coord a"
  "RSSI_0 (update_health a z now l) = RSSI_0 a"
  "n_exp (update_health a z now l) = n_exp a"
  "kalman (update_health a z now l) = kalman a"
  "ewma (update_health a z now l) = l * z\<^sup>2 + (1 - l) * ewma a"
  "last_seen (update_health a z now l) = now"
  by (simp_all add: update_health_def)

lemma rssi_at_Some: "map_of rd k = Some r \<Longrightarrow> rssi_at rd k = Inr r"
  by (simp add: rssi_at_def)

lemma param_loop_frame:
  assumes "\<forall>a\<in>set as. (\<exists>r. map_of rd (mac_address (h a)) = Some r) \<and>
                         (\<exists>d. umap_at h dd a = Inr d)"
  shows "\<exists>h1. param_loop rd dd as h = Inr h1 \<and>
              (\<forall>p. p \<notin> set as \<longrightarrow> h1 p = h p) \<and>
              (\<forall>p. mac_address (h1 p) = mac_address (h p) \<and> coord (h1 p) = coord (h p) \<and>
                   ewma (h1 p) = ewma (h p) \<and> last_seen (h1 p) = last_seen (h p))"
  using assms
proof (induction as arbitrary: h)
  case Nil
  show ?case by simp
next
  case (Cons a as)
  from Cons.prems obtain r d where r: "map_of rd (mac_address (h a)) = Some r"
    and d: "umap_at h dd a = Inr d" by auto
  let ?h2 = "h(a := update_parameters (h a) r d)"
  have mac2: "mac_address (?h2 p) = mac_address (h p)" for p
    by (simp add: update_parameters_fields)
  have fields2: "coord (?h2 p) = coord (h p)" "ewma (?h2 p) = ewma (h p)"
    "last_seen (?h2 p) = last_seen (h p)" for p
    by (simp_all add: update_parameters_fields)
  have at2: "umap_at ?h2 dd b = umap_at h dd b" for b
    by (rule umap_at_cong) (rule mac2)
  have "\<forall>b\<in>set as. (\<exists>r. map_of rd (mac_address (?h2 b)) = Some r) \<and>
                      (\<exists>d. umap_at ?h2 dd b = Inr d)"
    using Cons.prems unfolding mac2 at2 by simp
  from Cons.IH[OF this] obtain h1 where h1: "param_loop rd dd as ?h2 = Inr h1"
    and out: "\<forall>p. p \<notin> set as \<longrightarrow> h1 p = ?h2 p"
    and fl: "\<forall>p. mac_address (h1 p) = mac_address (?h2 p) \<and> coord (h1 p) = coord (?h2 p) \<and>
                 ewma (h1 p) = ewma (?h2 p) \<and> last_seen (h1 p) = last_seen (?h2 p)"
    by blast
  have "param_loop rd dd (a # as) h = Inr h1"
    using h1 by (simp add: rssi_at_Some[OF r] d)
  moreover have "\<forall>p. p \<notin> set (a # as) \<longrightarrow> h1 p = h p"
    using out by simp
  moreover have "\<forall>p. mac_address (h1 p) = mac_address (h p) \<and> coord (h1 p) = coord (h p) \<and>
                   ewma (h1 p) = ewma (h p) \<and> last_seen (h1 p) = last_seen (h p)"
    using fl mac2 fields2 by metis
  ultimately show ?case by blast
qed

lemma dist_fold_keys:
  "fst ` set (fold (\<lambda>anchor result. umap_assign h result anchor (f anchor)) ys m)
     \<subseteq> set ys \<union> fst ` set m"
proof (induction ys arbitrary: m)
  case Nil
  show ?case by simp
next
  case (Cons y ys)
  have "fst ` set (fold (\<lambda>anchor result. umap_assign h result anchor (f anchor)) ys
                    (umap_assign h m y (f y)))
          \<subseteq> set ys \<union> fst ` set (umap_assign h m y (f y))"
    by (rule Cons.IH)
  also have "\<dots> \<subseteq> set ys \<union> insert y (fst ` set m)"
    using umap_assign_keys[of h m y "f y"] by blast
  finally show ?case by auto
qed

lemma dist_fold_distinct:
  "distinct (map (\<lambda>e. mac_address (h (fst e))) m) \<Longrightarrow>
   distinct (map (\<lambda>e. mac_address (h (fst e)))
              (fold (\<lambda>anchor result. umap_assign h result anchor (f anchor)) ys m))"
  by (induction ys arbitrary: m) (simp_all add: umap_assign_distinct_macs)

lemma dist_fold_value:
  assumes "\<forall>b\<in>set ys. mac_address (h b) = mac_address (h a) \<longrightarrow> f b = f a"
    and "a \<in> set ys \<or> umap_at h m a = Inr (f a)"
  shows "umap_at h (fold (\<lambda>anchor result. umap_assign h result anchor (f anchor)) ys m) a
           = Inr (f a)"
  using assms
proof (induction ys arbitrary: m)
  case Nil
  then show ?case by simp
next
  case (Cons y ys)
  have same: "\<forall>b\<in>set ys. mac_address (h b) = mac_address (h a) \<longrightarrow> f b = f a"
    using Cons.prems(1) by simp
  have "a \<in> set ys \<or> umap_at h (umap_assign h m y (f y)) a = Inr (f a)"
  proof (cases "a \<in> set ys")
    case True
    then show ?thesis by simp
  next
    case False
    show ?thesis
    proof (cases "mac_address (h y) = mac_address (h a)")
      case True
      with Cons.prems(1) have "f y = f a" by simp
      with True show ?thesis by (simp add: umap_at_assign)
    next
      case neq: False
      then have "y \<noteq> a" by auto
      with False Cons.prems(2) have "umap_at h m a = Inr (f a)" by simp
      with neq show ?thesis by (simp add: umap_at_assign)
    qed
  qed
  from Cons.IH[OF same this] show ?case by simp
qed

lemma umap_at_entry:
  "distinct (map (\<lambda>e. mac_address (h (fst e))) m) \<Longrightarrow> (a, d) \<in> set m \<Longrightarrow>
   umap_at h m a = Inr d"
  by (induction m) (force simp: image_iff)+

lemma z_loop_map:
  assumes "distinct (map (\<lambda>e. mac_address (h (fst e))) dd)"
    and "\<forall>e\<in>set dd. \<exists>r. map_of (rssi_readings (ts_tag ts)) (mac_address (h (fst e))) = Some r"
    and "\<forall>e\<in>set dd. mac_address (h (fst e)) \<notin> (\<lambda>a. mac_address (h a)) ` fst ` set acc"
  shows "z_loop h ts dd acc =
           Inr (acc @ map (\<lambda>(a, d). (a, PathLossModel_z (ts_model ts)
                                           (the (map_of (rssi_readings (ts_tag ts)) (mac_address (h a))))
                                           (RSSI_0 (h a)) (n_exp (h a)) d)) dd)"
  using assms
proof (induction dd arbitrary: acc)
  case Nil
  show ?case by simp
next
  case (Cons e dd)
  obtain a d where e: "e = (a, d)" by (cases e)
  from Cons.prems(2) obtain r where r: "map_of (rssi_readings (ts_tag ts)) (mac_address (h a)) = Some r"
    by (auto simp: e)
  let ?z = "PathLossModel_z (ts_model ts) r (RSSI_0 (h a)) (n_exp (h a)) d"
  have fresh: "mac_address (h a) \<notin> (\<lambda>a. mac_address (h a)) ` fst ` set acc"
    using Cons.prems(3) by (simp add: e)
  then have asg: "umap_assign h acc a ?z = acc @ [(a, ?z)]" by (rule umap_assign_fresh)
  have d1: "distinct (map (\<lambda>e. mac_address (h (fst e))) dd)"
    using Cons.prems(1) by simp
  have d2: "\<forall>e\<in>set dd. \<exists>r. map_of (rssi_readings (ts_tag ts)) (mac_address (h (fst e))) = Some r"
    using Cons.prems(2) by simp
  have d3: "\<forall>e\<in>set dd. mac_address (h (fst e))
                \<notin> (\<lambda>a. mac_address (h a)) ` fst ` set (acc @ [(a, ?z)])"
    using Cons.prems(1,3) by (auto simp: e image_iff)
  from Cons.IH[OF d1 d2 d3] show ?case
    by (simp add: e rssi_at_Some[OF r] asg r)
qed

lemma dist_fold_defined:
  assumes "a \<in> set ys \<or> (\<exists>d. umap_at h m a = Inr d)"
  shows "\<exists>d. umap_at h (fold (\<lambda>anchor result. umap_assign h result anchor (f anchor)) ys m) a
               = Inr d"
  using assms
proof (induction ys arbitrary: m)
  case Nil
  then show ?case by simp
next
  case (Cons y ys)
  have "a \<in> set ys \<or> (\<exists>d. umap_at h (umap_assign h m y (f y)) a = Inr d)"
    using Cons.prems by (auto simp: umap_at_assign)
  from Cons.IH[OF this] show ?case by simp
qed

lemma distinct_keys_of_macs:
  "distinct (map (\<lambda>e. mac_address (h (fst e))) m) \<Longrightarrow> distinct (map fst m)"
  by (induction m) (force simp: image_iff)+

lemma significant_props:
  assumes "a \<in> set (get_significant_anchors srt h ts xs n)"
  shows "a \<in> set xs \<and>
         (\<exists>r. map_of (rssi_readings (ts_tag ts)) (mac_address (h a)) = Some r \<and>
              r \<ge> max_rssi_of (rssi_readings (ts_tag ts)) - 10) \<and>
         ewma (h a) < EWMA_THRESHOLD"
proof -
  let ?rd = "rssi_readings (ts_tag ts)"
  from assms have ne: "?rd \<noteq> []"
    by (auto simp: get_significant_anchors_take split: if_splits)
  with assms have "a \<in> set (take (size_t_of_int n)
      (std_sort_desc srt h ?rd (keep_loop h ?rd (max_rssi_of ?rd) xs)))"
    by (simp add: get_significant_anchors_take)
  then have "a \<in> set (std_sort_desc srt h ?rd (keep_loop h ?rd (max_rssi_of ?rd) xs))"
    by (rule in_set_takeD)
  then have "a \<in> set (keep_loop h ?rd (max_rssi_of ?rd) xs)"
    by (simp add: std_sort_desc_def std_sort_set)
  then show ?thesis
    by (auto simp: keep_loop_filter split: option.splits)
qed

lemma health_loop_result:
  assumes "distinct (map fst zd)"
    and "\<forall>e\<in>set zd. \<exists>r. map_of rd (mac_address (h (fst e))) = Some r"
  shows "\<exists>h'. health_loop rd mx now dR T zd h = Inr h' \<and>
              (\<forall>p. h' p =
                 (case map_of zd p of
                    None \<Rightarrow> h p
                  | Some z \<Rightarrow>
                      if admitted (h p) (the (map_of rd (mac_address (h p)))) mx now dR T
                      then update_health (h p) z now LAMBDA_EWMA else h p))"
  using assms
proof (induction zd arbitrary: h)
  case Nil
  show ?case by simp
next
  case (Cons e zd)
  obtain a z where e: "e = (a, z)" by (cases e)
  from Cons.prems(2) obtain r where r: "map_of rd (mac_address (h a)) = Some r"
    by (auto simp: e)
  let ?adm = "admitted (h a) r mx now dR T"
  let ?h2 = "if ?adm then h(a := update_health (h a) z now LAMBDA_EWMA) else h"
  have mac2: "mac_address (?h2 p) = mac_address (h p)" for p
    by (simp add: update_health_fields)
  have step: "health_loop rd mx now dR T (e # zd) h = health_loop rd mx now dR T zd ?h2"
    by (simp add: e rssi_at_Some[OF r])
  have dist: "distinct (map fst zd)" and notin: "a \<notin> fst ` set zd"
    using Cons.prems(1) by (simp_all add: e)
  have "\<forall>e\<in>set zd. \<exists>r. map_of rd (mac_address (?h2 (fst e))) = Some r"
    using Cons.prems(2) unfolding mac2 by simp
  from Cons.IH[OF dist this] obtain h' where
    run: "health_loop rd mx now dR T zd ?h2 = Inr h'" and
    val: "\<forall>p. h' p =
            (case map_of zd p of
               None \<Rightarrow> ?h2 p
             | Some z \<Rightarrow>
                 if admitted (?h2 p) (the (map_of rd (mac_address (?h2 p)))) mx now dR T
                 then update_health (?h2 p) z now LAMBDA_EWMA else ?h2 p)"
    by blast
  have none: "map_of zd a = None"
    using notin by (simp add: map_of_eq_None_iff)
  have "h' p =
          (case map_of (e # zd) p of
             None \<Rightarrow> h p
           | Some z \<Rightarrow>
               if admitted (h p) (the (map_of rd (mac_address (h p)))) mx now dR T
               then update_health (h p) z now LAMBDA_EWMA else h p)" for p
  proof (cases "p = a")
    case True
    with val none r show ?thesis by (simp add: e)
  next
    case False
    then have h2p: "?h2 p = h p" by simp
    have "h' p =
            (case map_of zd p of
               None \<Rightarrow> ?h2 p
             | Some z \<Rightarrow>
                 if admitted (?h2 p) (the (map_of rd (mac_address (?h2 p)))) mx now dR T
                 then update_health (?h2 p) z now LAMBDA_EWMA else ?h2 p)"
      using val by blast
    then have "h' p =
            (case map_of zd p of
               None \<Rightarrow> h p
             | Some z \<Rightarrow>
                 if admitted (h p) (the (map_of rd (mac_address (h p)))) mx now dR T
                 then update_health (h p) z now LAMBDA_EWMA else h p)"
      unfolding h2p .
    then show ?thesis using False by (simp add: e)
  qed
  with run step show ?case by auto
qed

lemma map_of_keyed:
  "map_of (map (\<lambda>(a, d). (a, g a d)) dd) p = map_option (g p) (map_of dd p)"
  by (induction dd) auto

lemma TagSystem_eta: "\<lparr> ts_tag = ts_tag ts, ts_model = ts_model ts \<rparr> = ts"
  by simp

lemma orchestrator_result:
  "\<exists>h1 h'.
     param_loop (rssi_readings (ts_tag ts)) (distances srt h ts xs)
       (get_significant_anchors srt h ts xs MAX_SIGNIFICANT_ANCHORS) h = Inr h1 \<and>
     update_anchors_from_tag_data srt h xs (ts_tag ts) (ts_model ts) now dR T = Inr h' \<and>
     (\<forall>p. p \<notin> set (get_significant_anchors srt h ts xs MAX_SIGNIFICANT_ANCHORS) \<longrightarrow> h1 p = h p) \<and>
     (\<forall>p. mac_address (h1 p) = mac_address (h p) \<and> coord (h1 p) = coord (h p) \<and>
          ewma (h1 p) = ewma (h p) \<and> last_seen (h1 p) = last_seen (h p)) \<and>
     (\<forall>p. h' p =
        (case map_of (distances srt h ts xs) p of
           None \<Rightarrow> h1 p
         | Some d \<Rightarrow>
             if admitted (h1 p) (the (map_of (rssi_readings (ts_tag ts)) (mac_address (h1 p))))
                  (max_rssi_of (rssi_readings (ts_tag ts))) now dR T
             then update_health (h1 p)
                    (PathLossModel_z (ts_model ts)
                       (the (map_of (rssi_readings (ts_tag ts)) (mac_address (h1 p))))
                       (RSSI_0 (h1 p)) (n_exp (h1 p)) d)
                    now LAMBDA_EWMA
             else h1 p))"
proof (cases "rssi_readings (ts_tag ts) = []")
  case True
  then have "get_significant_anchors srt h ts xs MAX_SIGNIFICANT_ANCHORS = []"
    by (simp add: get_significant_anchors_take)
  moreover from this have "distances srt h ts xs = []" by (simp add: distances_def)
  moreover have "update_anchors_from_tag_data srt h xs (ts_tag ts) (ts_model ts) now dR T = Inr h"
    using True by (simp add: update_anchors_from_tag_data_def)
  ultimately show ?thesis by simp
next
  case False
  let ?rd = "rssi_readings (ts_tag ts)"
  let ?sig = "get_significant_anchors srt h ts xs MAX_SIGNIFICANT_ANCHORS"
  let ?dd = "distances srt h ts xs"
  let ?f = "\<lambda>anchor. R3_distance (coord (h anchor)) (est_coord (ts_tag ts))"
  have dd: "?dd = fold (\<lambda>anchor result. umap_assign h result anchor (?f anchor)) ?sig []"
    by (simp add: distances_def)
  have rd_sig: "\<exists>r. map_of ?rd (mac_address (h a)) = Some r" if "a \<in> set ?sig" for a
    using significant_props[OF that] by blast
  have def_sig: "\<exists>d. umap_at h ?dd a = Inr d" if "a \<in> set ?sig" for a
    unfolding dd using that by (intro dist_fold_defined) simp
  have "\<forall>a\<in>set ?sig. (\<exists>r. map_of ?rd (mac_address (h a)) = Some r) \<and>
                         (\<exists>d. umap_at h ?dd a = Inr d)"
    using rd_sig def_sig by blast
  from param_loop_frame[OF this] obtain h1 where
    h1: "param_loop ?rd ?dd ?sig h = Inr h1" and
    out: "\<forall>p. p \<notin> set ?sig \<longrightarrow> h1 p = h p" and
    fl: "\<forall>p. mac_address (h1 p) = mac_address (h p) \<and> coord (h1 p) = coord (h p) \<and>
             ewma (h1 p) = ewma (h p) \<and> last_seen (h1 p) = last_seen (h p)"
    by blast
  have mac1: "mac_address (h1 p) = mac_address (h p)" for p using fl by simp
  have dd1: "distances srt h1 ts xs = ?dd"
    using fl by (intro distances_cong) simp_all
  have keys: "fst ` set ?dd \<subseteq> set ?sig"
    unfolding dd using dist_fold_keys[of h ?f ?sig "[]"] by simp
  have dmac: "distinct (map (\<lambda>e. mac_address (h (fst e))) ?dd)"
    unfolding dd by (intro dist_fold_distinct) simp
  then have dmac1: "distinct (map (\<lambda>e. mac_address (h1 (fst e))) ?dd)"
    unfolding mac1 .
  have rd1: "\<forall>e\<in>set ?dd. \<exists>r. map_of ?rd (mac_address (h1 (fst e))) = Some r"
    unfolding mac1 using keys rd_sig by auto
  let ?Z = "\<lambda>a d. PathLossModel_z (ts_model ts) (the (map_of ?rd (mac_address (h1 a))))
                    (RSSI_0 (h1 a)) (n_exp (h1 a)) d"
  let ?zd = "map (\<lambda>(a, d). (a, ?Z a d)) ?dd"
  have zv: "z_vals srt h1 ts xs = Inr ?zd"
    using z_loop_map[OF dmac1 rd1, of "[]"] by (simp add: z_vals_def dd1)
  have fst_zd: "map fst ?zd = map fst ?dd" by (simp add: case_prod_unfold comp_def)
  have dz: "distinct (map fst ?zd)"
    unfolding fst_zd using dmac by (rule distinct_keys_of_macs)
  have "set ?zd = (\<lambda>(a, d). (a, ?Z a d)) ` set ?dd" by simp
  then have rz: "\<forall>e\<in>set ?zd. \<exists>r. map_of ?rd (mac_address (h1 (fst e))) = Some r"
    using rd1 by auto
  from health_loop_result[OF dz rz, of "max_rssi_of ?rd" now dR T] obtain h' where
    hl: "health_loop ?rd (max_rssi_of ?rd) now dR T ?zd h1 = Inr h'" and
    val: "\<forall>p. h' p =
            (case map_of ?zd p of
               None \<Rightarrow> h1 p
             | Some z \<Rightarrow>
                 if admitted (h1 p) (the (map_of ?rd (mac_address (h1 p)))) (max_rssi_of ?rd)
                      now dR T
                 then update_health (h1 p) z now LAMBDA_EWMA else h1 p)"
    by blast
  have upd: "update_anchors_from_tag_data srt h xs (ts_tag ts) (ts_model ts) now dR T = Inr h'"
    using False h1 zv hl by (simp add: update_anchors_from_tag_data_def Let_def TagSystem_eta)
  have "h' p =
        (case map_of ?dd p of
           None \<Rightarrow> h1 p
         | Some d \<Rightarrow>
             if admitted (h1 p) (the (map_of ?rd (mac_address (h1 p)))) (max_rssi_of ?rd) now dR T
             then update_health (h1 p) (?Z p d) now LAMBDA_EWMA
             else h1 p)" for p
    using val[rule_format, of p] by (simp add: map_of_keyed split: option.splits)
  with h1 upd out fl show ?thesis by blast
qed

lemma distances_keys:
  "fst ` set (distances srt h ts xs) \<subseteq> set (get_significant_anchors srt h ts xs MAX_SIGNIFICANT_ANCHORS)"
  unfolding distances_def Let_def
  using dist_fold_keys[of h "\<lambda>anchor. R3_distance (coord (h anchor)) (est_coord (ts_tag ts))"
          "get_significant_anchors srt h ts xs MAX_SIGNIFICANT_ANCHORS" "[]"]
  by simp

lemma admitted_cong:
  "last_seen a = last_seen b \<Longrightarrow> admitted a r mx now dR T = admitted b r mx now dR T"
  by (simp add: admitted_def)

text \<open>
  Claim C8, as the code has it. Whatever order \<^verbatim>\<open>std::sort\<close> gives to anchors of
  equal RSSI, processing a fix never throws, and the only anchors whose state it
  changes are the significant anchors of the fix: candidates that
  appear in the fix's RSSI map, have RSSI within 10 dB of the strongest RSSI of the
  fix and have EWMA below 8 (and are among the five strongest of those). Their
  \<open>rssi0\<close>, \<open>n\<close> and Kalman internals can change whether or not they pass the
  admission gates; \<open>ewma\<close> and \<open>last_seen\<close> change only for the significant anchors that
  also pass the admission gates (time since last seen at most \<open>T_vis\<close>, RSSI delta
  from the strongest RSSI at most \<open>deltaR\<close>). Every other anchor is left unchanged, and
  no anchor's MAC address or coordinates change.
\<close>

theorem update_frame:
  "\<exists>h'. update_anchors_from_tag_data srt h xs tag model now dR T = Inr h' \<and>
     (\<forall>p. (h' p \<noteq> h p \<longrightarrow>
             p \<in> set (get_significant_anchors srt h \<lparr>ts_tag = tag, ts_model = model\<rparr> xs
                        MAX_SIGNIFICANT_ANCHORS) \<and>
             p \<in> set xs \<and>
             (\<exists>r. map_of (rssi_readings tag) (mac_address (h p)) = Some r \<and>
                  max_rssi_of (rssi_readings tag) - 10 \<le> r) \<and>
             ewma (h p) < 8) \<and>
          (ewma (h' p) \<noteq> ewma (h p) \<or> last_seen (h' p) \<noteq> last_seen (h p) \<longrightarrow>
             admitted (h p) (the (map_of (rssi_readings tag) (mac_address (h p))))
               (max_rssi_of (rssi_readings tag)) now dR T) \<and>
          mac_address (h' p) = mac_address (h p) \<and> coord (h' p) = coord (h p))"
proof -
  let ?ts = "\<lparr>ts_tag = tag, ts_model = model\<rparr>"
  let ?rd = "rssi_readings tag"
  let ?sig = "get_significant_anchors srt h ?ts xs MAX_SIGNIFICANT_ANCHORS"
  let ?dd = "distances srt h ?ts xs"
  from orchestrator_result[where ts = ?ts and h = h and xs = xs and now = now and dR = dR and T = T
      and srt = srt, unfolded TagSystem.select_convs]
  obtain h1 h' where
    upd: "update_anchors_from_tag_data srt h xs tag model now dR T = Inr h'" and
    out: "\<forall>p. p \<notin> set ?sig \<longrightarrow> h1 p = h p" and
    fl: "\<forall>p. mac_address (h1 p) = mac_address (h p) \<and> coord (h1 p) = coord (h p) \<and>
             ewma (h1 p) = ewma (h p) \<and> last_seen (h1 p) = last_seen (h p)" and
    val: "\<forall>p. h' p =
        (case map_of ?dd p of
           None \<Rightarrow> h1 p
         | Some d \<Rightarrow>
             if admitted (h1 p) (the (map_of ?rd (mac_address (h1 p)))) (max_rssi_of ?rd) now dR T
             then update_health (h1 p)
                    (PathLossModel_z model (the (map_of ?rd (mac_address (h1 p))))
                       (RSSI_0 (h1 p)) (n_exp (h1 p)) d)
                    now LAMBDA_EWMA
             else h1 p)"
    by auto
  have sig: "p \<in> set xs \<and>
             (\<exists>r. map_of ?rd (mac_address (h p)) = Some r \<and> max_rssi_of ?rd - 10 \<le> r) \<and>
             ewma (h p) < 8" if "p \<in> set ?sig" for p
    using significant_props[OF that] by (simp add: EWMA_THRESHOLD_def)
  have adm: "admitted (h1 p) r mx now dR T = admitted (h p) r mx now dR T" for p r mx
    using fl by (intro admitted_cong) simp
  have mac1: "mac_address (h1 p) = mac_address (h p)" for p using fl by simp
  have main: "(h' p \<noteq> h p \<longrightarrow> p \<in> set ?sig) \<and>
          (ewma (h' p) \<noteq> ewma (h p) \<or> last_seen (h' p) \<noteq> last_seen (h p) \<longrightarrow>
             admitted (h p) (the (map_of ?rd (mac_address (h p)))) (max_rssi_of ?rd) now dR T) \<and>
          mac_address (h' p) = mac_address (h p) \<and> coord (h' p) = coord (h p)" for p
  proof (cases "map_of ?dd p")
    case None
    with val have "h' p = h1 p" by simp
    with out fl show ?thesis by metis
  next
    case (Some d)
    then have "(p, d) \<in> set ?dd" by (rule map_of_SomeD)
    then have "p \<in> fst ` set ?dd" by force
    with distances_keys[where h = h and ts = ?ts and xs = xs and srt = srt] have insig: "p \<in> set ?sig" by blast
    show ?thesis
    proof (cases "admitted (h p) (the (map_of ?rd (mac_address (h p)))) (max_rssi_of ?rd) now dR T")
      case True
      with val Some have "h' p = update_health (h1 p)
                    (PathLossModel_z model (the (map_of ?rd (mac_address (h1 p))))
                       (RSSI_0 (h1 p)) (n_exp (h1 p)) d) now LAMBDA_EWMA"
        by (simp add: adm mac1)
      with True insig fl show ?thesis by (simp add: update_health_fields)
    next
      case False
      with val Some have "h' p = h1 p" by (simp add: adm mac1)
      with insig fl show ?thesis by simp
    qed
  qed
  show ?thesis
    using upd main sig by blast
qed

subsection \<open>The orchestrator on the first scenario of the specification\<close>

lemma log10_clamp: "log 10 (1 / 1000000) = - 6"
proof -
  have "log 10 ((10::real) ^ 6) = real (6::nat)"
    by (rule log_pow_cancel) simp_all
  moreover have "(10::real) ^ 6 = 1000000" by simp
  ultimately have "log 10 1000000 = 6" by simp
  then show ?thesis by (simp add: log_recip)
qed

lemma scenario_significant:
  "get_significant_anchors srt (scenario_anchors t) \<lparr>ts_tag = scenario_tag, ts_model = m\<rparr> [0]
     MAX_SIGNIFICANT_ANCHORS = [0]"
  by (simp add: get_significant_anchors_take keep_loop_filter max_rssi_of_def std_sort_desc_def
      scenario_anchors_def scenario_tag_def Anchor_new_def FLT_LOWEST_def EWMA_THRESHOLD_def
      size_t_of_MAX std_sort_single)

lemma scenario_distances:
  "distances srt (scenario_anchors t) \<lparr>ts_tag = scenario_tag, ts_model = m\<rparr> [0] = [(0, 0)]"
  by (simp add: distances_def scenario_significant)
     (simp add: scenario_anchors_def scenario_tag_def Anchor_new_def R3_distance_def)


lemma scenario_update:
  "update_anchors_from_tag_data srt (scenario_anchors t) [0] scenario_tag PathLossModel_init now dR T =
     Inr ((scenario_anchors t)(0 :=
       (if admitted (scenario_anchors t 0) (- 59) (- 59) now dR T
        then update_health (update_parameters (scenario_anchors t 0) (- 59) 0)
               (PathLossModel_z PathLossModel_init (- 59)
                  (RSSI_0 (update_parameters (scenario_anchors t 0) (- 59) 0))
                  (n_exp (update_parameters (scenario_anchors t 0) (- 59) 0)) 0)
               now LAMBDA_EWMA
        else update_parameters (scenario_anchors t 0) (- 59) 0)))"
proof -
  let ?h = "scenario_anchors t"
  let ?ts = "\<lparr>ts_tag = scenario_tag, ts_model = PathLossModel_init\<rparr>"
  let ?a1 = "update_parameters (?h 0) (- 59) 0"
  let ?h1 = "?h(0 := ?a1)"
  have rd: "rssi_readings scenario_tag = [(''AA:BB:CC:DD:EE:01'', - 59)]"
    by (simp add: scenario_tag_def)
  have mac: "mac_address (?h p) = ''AA:BB:CC:DD:EE:01''" for p
    by (simp add: scenario_anchors_def Anchor_new_def)
  have mac1: "mac_address (?h1 p) = mac_address (?h p)" for p
    by (simp add: update_parameters_fields)
  have pl: "param_loop (rssi_readings scenario_tag) [(0, 0)] [0] ?h = Inr ?h1"
    by (simp add: rd mac rssi_at_def)
  have "distances srt ?h1 ?ts [0] = distances srt ?h ?ts [0]"
    by (intro distances_cong) (simp_all add: update_parameters_fields)
  then have dd1: "distances srt ?h1 ?ts [0] = [(0, 0)]" by (simp add: scenario_distances)
  have zv: "z_vals srt ?h1 ?ts [0] =
              Inr [(0, PathLossModel_z PathLossModel_init (- 59) (RSSI_0 ?a1) (n_exp ?a1) 0)]"
    by (simp add: z_vals_def dd1 rd rssi_at_def update_parameters_fields mac)
  have mx: "max_rssi_of (rssi_readings scenario_tag) = - 59"
    by (simp add: rd max_rssi_of_def FLT_LOWEST_def)
  have adm: "admitted ?a1 r mx now dR T = admitted (?h 0) r mx now dR T" for r mx
    by (intro admitted_cong) (simp add: update_parameters_fields)
  have hl: "health_loop (rssi_readings scenario_tag) (- 59) now dR T
              [(0, PathLossModel_z PathLossModel_init (- 59) (RSSI_0 ?a1) (n_exp ?a1) 0)] ?h1 =
            Inr (?h(0 :=
              (if admitted (?h 0) (- 59) (- 59) now dR T
               then update_health ?a1
                      (PathLossModel_z PathLossModel_init (- 59) (RSSI_0 ?a1) (n_exp ?a1) 0)
                      now LAMBDA_EWMA
               else ?a1)))"
    by (simp add: rd rssi_at_def update_parameters_fields mac adm)
  show ?thesis
    unfolding update_anchors_from_tag_data_def Let_def TagSystem.select_convs
      scenario_significant scenario_distances pl zv mx hl sum.case
    by (simp add: rd)
qed


lemma obs_X_init_0: "obs_X KalmanFilter_init 0 = 60"
  by (simp add: obs_X_def init_fields log10_clamp)

lemma scenario_params:
  "RSSI_0 (update_parameters (scenario_anchors t 0) (- 59) 0)
     = - 59 - 120 * ((1 + (1 / 400)\<^sup>2) / (17 + (1 / 400)\<^sup>2 + 3600 * (1 / 10 + (1 / 10000)\<^sup>2)))"
  "n_exp (update_parameters (scenario_anchors t 0) (- 59) 0)
     = 2 - 120 * (60 * (1 / 10 + (1 / 10000)\<^sup>2) / (17 + (1 / 400)\<^sup>2 + 3600 * (1 / 10 + (1 / 10000)\<^sup>2)))"
  "rssi_vals (kalman (update_parameters (scenario_anchors t 0) (- 59) 0)) = [- 59]"
  "ewma (update_parameters (scenario_anchors t 0) (- 59) 0) = 1"
  "last_seen (update_parameters (scenario_anchors t 0) (- 59) 0) = t"
  by (simp_all add: update_parameters_def Let_def scenario_anchors_def Anchor_new_def step_output
      step_rssi_vals init_predicted obs_X_init_0 innov_S_def init_fields push_trim_def
      max_buffer_def)

lemma scenario_initial:
  "RSSI_0 (scenario_anchors t 0) = - 59" "n_exp (scenario_anchors t 0) = 2"
  "ewma (scenario_anchors t 0) = 1" "last_seen (scenario_anchors t 0) = t"
  "rssi_vals (kalman (scenario_anchors t 0)) = []"
  "mac_address (scenario_anchors t 0) = ''AA:BB:CC:DD:EE:01''"
  by (simp_all add: scenario_anchors_def Anchor_new_def init_fields)

text \<open>
  Claim C8 states that a fix mutates only anchors that pass the admission gates. In
  the scenario the anchor was last seen at 1000 and the fix arrives at 10000 with
  \<open>T_vis = 6000\<close>: the anchor fails the time gate, yet its RSSI window and its
  \<open>rssi0\<close> are changed by the parameter update.
\<close>

theorem update_gate_counterexample:
  "\<not> isl (update_anchors_from_tag_data insertion_sort (scenario_anchors 1000) [0] scenario_tag
            PathLossModel_init 10000 12 6000) \<and>
   \<not> admitted (scenario_anchors 1000 0) (- 59) (- 59) 10000 12 6000 \<and>
   rssi_vals (kalman (scenario_anchors 1000 0)) = [] \<and>
   rssi_vals (kalman (projr (update_anchors_from_tag_data insertion_sort (scenario_anchors 1000) [0] scenario_tag
                               PathLossModel_init 10000 12 6000) 0)) = [- 59] \<and>
   RSSI_0 (projr (update_anchors_from_tag_data insertion_sort (scenario_anchors 1000) [0] scenario_tag
                    PathLossModel_init 10000 12 6000) 0)
     < RSSI_0 (scenario_anchors 1000 0)"
proof -
  have na: "\<not> admitted (scenario_anchors 1000 0) (- 59) (- 59) 10000 12 6000"
    by (simp add: admitted_def scenario_initial)
  show ?thesis
    unfolding scenario_update using na
    by (simp add: scenario_params scenario_initial power2_eq_square)
qed

text \<open>
  Claim C1 states that the health update uses the z-score of the parameters the
  anchor held before the fix. In the scenario the anchor is admitted and that
  z-score is -30, which would give \<open>ewma = 45.95\<close>; the code leaves \<open>ewma\<close> below 2.
\<close>

theorem health_update_pre_z_counterexample:
  "\<not> isl (update_anchors_from_tag_data insertion_sort (scenario_anchors 0) [0] scenario_tag
            PathLossModel_init 1000 12 6000) \<and>
   admitted (scenario_anchors 0 0) (- 59) (- 59) 1000 12 6000 \<and>
   PathLossModel_z PathLossModel_init (- 59) (RSSI_0 (scenario_anchors 0 0))
     (n_exp (scenario_anchors 0 0)) 0 = - 30 \<and>
   LAMBDA_EWMA * (- 30)\<^sup>2 + (1 - LAMBDA_EWMA) * ewma (scenario_anchors 0 0) = 45.95 \<and>
   ewma (projr (update_anchors_from_tag_data insertion_sort (scenario_anchors 0) [0] scenario_tag
                  PathLossModel_init 1000 12 6000) 0) < 2"
proof -
  have ad: "admitted (scenario_anchors 0 0) (- 59) (- 59) 1000 12 6000"
    by (simp add: admitted_def scenario_initial)
  have zpre: "PathLossModel_z PathLossModel_init (- 59) (RSSI_0 (scenario_anchors 0 0))
     (n_exp (scenario_anchors 0 0)) 0 = - 30"
    by (simp add: PathLossModel_z_def PathLossModel_mu_def PathLossModel_init_def
        scenario_initial log10_clamp)
  have pre: "LAMBDA_EWMA * (- 30)\<^sup>2 + (1 - LAMBDA_EWMA) * ewma (scenario_anchors 0 0) = 45.95"
    by (simp add: LAMBDA_EWMA_def scenario_initial)
  have post: "ewma (projr (update_anchors_from_tag_data insertion_sort (scenario_anchors 0) [0] scenario_tag
                  PathLossModel_init 1000 12 6000) 0) < 2"
    unfolding scenario_update using ad
    by (simp add: update_health_fields scenario_params PathLossModel_z_def PathLossModel_mu_def
        PathLossModel_init_def log10_clamp LAMBDA_EWMA_def power2_eq_square)
  have ok: "\<not> isl (update_anchors_from_tag_data insertion_sort (scenario_anchors 0) [0] scenario_tag
            PathLossModel_init 1000 12 6000)"
    unfolding scenario_update by simp
  from ok ad zpre pre post show ?thesis by blast
qed

theorem update_frame_witness:
  "0 \<in> set (get_significant_anchors insertion_sort (scenario_anchors 0)
              \<lparr>ts_tag = scenario_tag, ts_model = PathLossModel_init\<rparr> [0] MAX_SIGNIFICANT_ANCHORS) \<and>
   admitted (scenario_anchors 0 0)
     (the (map_of (rssi_readings scenario_tag) (mac_address (scenario_anchors 0 0))))
     (max_rssi_of (rssi_readings scenario_tag)) 1000 12 6000"
proof -
  let ?h = "scenario_anchors 0"
  from update_frame[where h = ?h and xs = "[0]" and tag = scenario_tag and model = PathLossModel_init
      and now = 1000 and dR = 12 and T = 6000 and srt = insertion_sort]
  obtain h' where
    upd: "update_anchors_from_tag_data insertion_sort ?h [0] scenario_tag PathLossModel_init 1000 12 6000 = Inr h'"
    and fr: "h' 0 \<noteq> ?h 0 \<longrightarrow>
             0 \<in> set (get_significant_anchors insertion_sort ?h
                        \<lparr>ts_tag = scenario_tag, ts_model = PathLossModel_init\<rparr> [0]
                        MAX_SIGNIFICANT_ANCHORS)"
    and gate: "ewma (h' 0) \<noteq> ewma (?h 0) \<or> last_seen (h' 0) \<noteq> last_seen (?h 0) \<longrightarrow>
             admitted (?h 0) (the (map_of (rssi_readings scenario_tag) (mac_address (?h 0))))
               (max_rssi_of (rssi_readings scenario_tag)) 1000 12 6000"
    by blast
  have ad: "admitted (?h 0) (- 59) (- 59) 1000 12 6000"
    by (simp add: admitted_def scenario_initial)
  from upd have h': "h' = ?h(0 := update_health (update_parameters (?h 0) (- 59) 0)
               (PathLossModel_z PathLossModel_init (- 59)
                  (RSSI_0 (update_parameters (?h 0) (- 59) 0))
                  (n_exp (update_parameters (?h 0) (- 59) 0)) 0)
               1000 LAMBDA_EWMA)"
    unfolding scenario_update using ad by simp
  have ls: "last_seen (h' 0) \<noteq> last_seen (?h 0)"
    by (simp add: h' update_health_fields scenario_initial)
  then have "h' 0 \<noteq> ?h 0" by auto
  with fr gate ls show ?thesis by blast
qed

subsection \<open>Which z-score the health update uses\<close>

lemma umap_at_found:
  "umap_at h m a = Inr d \<Longrightarrow> \<exists>k. (k, d) \<in> set m \<and> mac_address (h k) = mac_address (h a)"
proof (induction m)
  case Nil
  then show ?case by simp
next
  case (Cons e m)
  obtain k' v' where e: "e = (k', v')" by (cases e)
  show ?case
  proof (cases "mac_address (h k') = mac_address (h a)")
    case True
    with Cons.prems have "v' = d" by (simp add: e)
    with True show ?thesis by (intro exI[of _ k']) (simp add: e)
  next
    case False
    with Cons.prems have "umap_at h m a = Inr d" by (simp add: e)
    from Cons.IH[OF this] obtain k where "(k, d) \<in> set m" "mac_address (h k) = mac_address (h a)"
      by blast
    then show ?thesis by (intro exI[of _ k]) simp
  qed
qed

lemma distances_lookup:
  assumes inj: "inj_on (\<lambda>a. mac_address (h a)) (set xs)"
    and a: "a \<in> set (get_significant_anchors srt h ts xs MAX_SIGNIFICANT_ANCHORS)"
  shows "map_of (distances srt h ts xs) a
           = Some (R3_distance (coord (h a)) (est_coord (ts_tag ts)))"
proof -
  let ?sig = "get_significant_anchors srt h ts xs MAX_SIGNIFICANT_ANCHORS"
  let ?f = "\<lambda>anchor. R3_distance (coord (h anchor)) (est_coord (ts_tag ts))"
  let ?dd = "distances srt h ts xs"
  have dd: "?dd = fold (\<lambda>anchor result. umap_assign h result anchor (?f anchor)) ?sig []"
    by (simp add: distances_def)
  have sub: "set ?sig \<subseteq> set xs"
  proof
    fix b assume "b \<in> set ?sig"
    from significant_props[OF this] show "b \<in> set xs" by simp
  qed
  have same: "\<forall>b\<in>set ?sig. mac_address (h b) = mac_address (h a) \<longrightarrow> ?f b = ?f a"
  proof (intro ballI impI)
    fix b assume "b \<in> set ?sig" and "mac_address (h b) = mac_address (h a)"
    then have "b \<in> set xs" "a \<in> set xs" "mac_address (h b) = mac_address (h a)"
      using sub a by auto
    then have "b = a" using inj_on_eq_iff[OF inj, of b a] by simp
    then show "?f b = ?f a" by simp
  qed
  have "a \<in> set ?sig \<or> umap_at h [] a = Inr (?f a)" using a by blast
  with same have "umap_at h ?dd a = Inr (?f a)"
    unfolding dd
    by (rule dist_fold_value[where f = ?f and ys = ?sig and m = "[]" and a = a and h = h])
  from umap_at_found[OF this]
  obtain k where k: "(k, ?f a) \<in> set ?dd" and mk: "mac_address (h k) = mac_address (h a)"
    by blast
  from k have "k \<in> fst ` set ?dd" by (rule image_eqI[rotated]) simp
  with distances_keys[where h = h and ts = ts and xs = xs and srt = srt] sub have "k \<in> set xs" by blast
  moreover have "a \<in> set xs" using a sub by auto
  ultimately have "k = a" using inj_on_eq_iff[OF inj, of k a] mk by simp
  have "distinct (map (\<lambda>e. mac_address (h (fst e))) ?dd)"
    unfolding dd by (intro dist_fold_distinct) simp
  then have "distinct (map fst ?dd)" by (rule distinct_keys_of_macs)
  moreover have "(a, ?f a) \<in> set ?dd" using k \<open>k = a\<close> by simp
  ultimately show ?thesis by (rule map_of_is_SomeI)
qed


text \<open>
  Claim C1, as the code has it. When distinct candidate anchors have distinct MAC
  addresses, then for every implementation of \<^verbatim>\<open>std::sort\<close> processing a fix
  never throws, and for every significant anchor that
  passes the admission gates the health update uses the z-score computed from the
  \<open>(rssi0, n)\<close> the anchor holds after the parameter updates of the same fix: with
  \<open>h1\<close> the store the parameter-update loop leaves, the final \<open>ewma\<close> is
  \<open>\<lambda> z\<^sup>2 + (1 - \<lambda>) ewma\<close> for \<open>z\<close> the z-score of the observed RSSI under the \<open>rssi0\<close> and
  \<open>n\<close> of \<open>h1\<close>, which are also the anchor's final \<open>rssi0\<close> and \<open>n\<close>; \<open>last_seen\<close> becomes
  \<open>now\<close>.
\<close>

theorem health_update_uses_post_update_z:
  assumes "inj_on (\<lambda>a. mac_address (h a)) (set xs)"
  shows "\<exists>h1 h'.
     param_loop (rssi_readings tag) (distances srt h \<lparr>ts_tag = tag, ts_model = model\<rparr> xs)
       (get_significant_anchors srt h \<lparr>ts_tag = tag, ts_model = model\<rparr> xs MAX_SIGNIFICANT_ANCHORS) h
       = Inr h1 \<and>
     update_anchors_from_tag_data srt h xs tag model now dR T = Inr h' \<and>
     (\<forall>a\<in>set (get_significant_anchors srt h \<lparr>ts_tag = tag, ts_model = model\<rparr> xs
                  MAX_SIGNIFICANT_ANCHORS).
        admitted (h a) (the (map_of (rssi_readings tag) (mac_address (h a))))
          (max_rssi_of (rssi_readings tag)) now dR T \<longrightarrow>
        RSSI_0 (h' a) = RSSI_0 (h1 a) \<and> n_exp (h' a) = n_exp (h1 a) \<and>
        ewma (h' a) =
          LAMBDA_EWMA *
            (PathLossModel_z model (the (map_of (rssi_readings tag) (mac_address (h a))))
               (RSSI_0 (h1 a)) (n_exp (h1 a))
               (R3_distance (coord (h a)) (est_coord tag)))\<^sup>2
          + (1 - LAMBDA_EWMA) * ewma (h a) \<and>
        last_seen (h' a) = now)"
proof -
  let ?ts = "\<lparr>ts_tag = tag, ts_model = model\<rparr>"
  let ?rd = "rssi_readings tag"
  let ?sig = "get_significant_anchors srt h ?ts xs MAX_SIGNIFICANT_ANCHORS"
  let ?dd = "distances srt h ?ts xs"
  from orchestrator_result[where ts = ?ts and h = h and xs = xs and now = now and dR = dR and T = T
      and srt = srt, unfolded TagSystem.select_convs]
  obtain h1 h' where
    pl: "param_loop ?rd ?dd ?sig h = Inr h1" and
    upd: "update_anchors_from_tag_data srt h xs tag model now dR T = Inr h'" and
    fl: "\<forall>p. mac_address (h1 p) = mac_address (h p) \<and> coord (h1 p) = coord (h p) \<and>
             ewma (h1 p) = ewma (h p) \<and> last_seen (h1 p) = last_seen (h p)" and
    val: "\<forall>p. h' p =
        (case map_of ?dd p of
           None \<Rightarrow> h1 p
         | Some d \<Rightarrow>
             if admitted (h1 p) (the (map_of ?rd (mac_address (h1 p)))) (max_rssi_of ?rd) now dR T
             then update_health (h1 p)
                    (PathLossModel_z model (the (map_of ?rd (mac_address (h1 p))))
                       (RSSI_0 (h1 p)) (n_exp (h1 p)) d)
                    now LAMBDA_EWMA
             else h1 p)"
    by auto
  have adm: "admitted (h1 p) r mx now dR T = admitted (h p) r mx now dR T" for p r mx
    using fl by (intro admitted_cong) simp
  have mac1: "mac_address (h1 p) = mac_address (h p)" for p using fl by simp
  have "RSSI_0 (h' a) = RSSI_0 (h1 a) \<and> n_exp (h' a) = n_exp (h1 a) \<and>
        ewma (h' a) =
          LAMBDA_EWMA *
            (PathLossModel_z model (the (map_of ?rd (mac_address (h a))))
               (RSSI_0 (h1 a)) (n_exp (h1 a))
               (R3_distance (coord (h a)) (est_coord tag)))\<^sup>2
          + (1 - LAMBDA_EWMA) * ewma (h a) \<and>
        last_seen (h' a) = now"
    if a: "a \<in> set ?sig"
      and ad: "admitted (h a) (the (map_of ?rd (mac_address (h a)))) (max_rssi_of ?rd) now dR T"
    for a
  proof -
    have "map_of ?dd a = Some (R3_distance (coord (h a)) (est_coord tag))"
      using distances_lookup[OF assms a] by simp
    with val ad have "h' a = update_health (h1 a)
                    (PathLossModel_z model (the (map_of ?rd (mac_address (h a))))
                       (RSSI_0 (h1 a)) (n_exp (h1 a))
                       (R3_distance (coord (h a)) (est_coord tag)))
                    now LAMBDA_EWMA"
      by (simp add: adm mac1)
    with fl show ?thesis by (simp add: update_health_fields)
  qed
  with pl upd show ?thesis by blast
qed


lemma scenario_param_loop:
  "param_loop (rssi_readings scenario_tag) [(0, 0)] [0] (scenario_anchors t)
     = Inr ((scenario_anchors t)(0 := update_parameters (scenario_anchors t 0) (- 59) 0))"
  by (simp add: scenario_tag_def scenario_initial rssi_at_def)

theorem health_update_uses_post_update_z_witness:
  "last_seen (projr (update_anchors_from_tag_data insertion_sort (scenario_anchors 0) [0] scenario_tag
                       PathLossModel_init 1000 12 6000) 0) = 1000 \<and>
   ewma (projr (update_anchors_from_tag_data insertion_sort (scenario_anchors 0) [0] scenario_tag
                  PathLossModel_init 1000 12 6000) 0)
     = LAMBDA_EWMA *
         (PathLossModel_z PathLossModel_init (- 59)
            (RSSI_0 (update_parameters (scenario_anchors 0 0) (- 59) 0))
            (n_exp (update_parameters (scenario_anchors 0 0) (- 59) 0)) 0)\<^sup>2
       + (1 - LAMBDA_EWMA) * 1"
proof -
  let ?h = "scenario_anchors 0"
  let ?ts = "\<lparr>ts_tag = scenario_tag, ts_model = PathLossModel_init\<rparr>"
  have inj: "inj_on (\<lambda>a. mac_address (?h a)) (set [0])" by simp
  from health_update_uses_post_update_z[OF inj, where tag = scenario_tag
      and model = PathLossModel_init and now = 1000 and dR = 12 and T = 6000
      and srt = insertion_sort]
  obtain h1 h' where
    pl: "param_loop (rssi_readings scenario_tag) (distances insertion_sort ?h ?ts [0])
           (get_significant_anchors insertion_sort ?h ?ts [0] MAX_SIGNIFICANT_ANCHORS) ?h = Inr h1" and
    upd: "update_anchors_from_tag_data insertion_sort ?h [0] scenario_tag PathLossModel_init 1000 12 6000 = Inr h'"
    and post: "\<forall>a\<in>set (get_significant_anchors insertion_sort ?h ?ts [0] MAX_SIGNIFICANT_ANCHORS).
        admitted (?h a) (the (map_of (rssi_readings scenario_tag) (mac_address (?h a))))
          (max_rssi_of (rssi_readings scenario_tag)) 1000 12 6000 \<longrightarrow>
        RSSI_0 (h' a) = RSSI_0 (h1 a) \<and> n_exp (h' a) = n_exp (h1 a) \<and>
        ewma (h' a) =
          LAMBDA_EWMA *
            (PathLossModel_z PathLossModel_init
               (the (map_of (rssi_readings scenario_tag) (mac_address (?h a))))
               (RSSI_0 (h1 a)) (n_exp (h1 a))
               (R3_distance (coord (?h a)) (est_coord scenario_tag)))\<^sup>2
          + (1 - LAMBDA_EWMA) * ewma (?h a) \<and>
        last_seen (h' a) = 1000"
    by blast
  have h1: "h1 = ?h(0 := update_parameters (?h 0) (- 59) 0)"
    using pl unfolding scenario_significant scenario_distances scenario_param_loop by simp
  have sig: "0 \<in> set (get_significant_anchors insertion_sort ?h ?ts [0] MAX_SIGNIFICANT_ANCHORS)"
    by (simp add: scenario_significant)
  have rd: "the (map_of (rssi_readings scenario_tag) (mac_address (?h 0))) = - 59"
    "max_rssi_of (rssi_readings scenario_tag) = - 59"
    "the (map_of (rssi_readings scenario_tag) ''AA:BB:CC:DD:EE:01'') = - 59"
    by (simp_all add: scenario_tag_def scenario_initial max_rssi_of_def FLT_LOWEST_def)
  have ad: "admitted (?h 0) (the (map_of (rssi_readings scenario_tag) (mac_address (?h 0))))
          (max_rssi_of (rssi_readings scenario_tag)) 1000 12 6000"
    by (simp add: rd admitted_def scenario_initial)
  have d0: "R3_distance (coord (?h 0)) (est_coord scenario_tag) = 0"
    by (simp add: R3_distance_def scenario_anchors_def Anchor_new_def scenario_tag_def)
  from post[rule_format, OF sig ad]
  have "ewma (h' 0) =
          LAMBDA_EWMA *
            (PathLossModel_z PathLossModel_init (- 59)
               (RSSI_0 (update_parameters (?h 0) (- 59) 0))
               (n_exp (update_parameters (?h 0) (- 59) 0)) 0)\<^sup>2
          + (1 - LAMBDA_EWMA) * 1"
    and "last_seen (h' 0) = 1000"
    by (simp_all add: h1 rd d0 scenario_initial)
  then show ?thesis by (simp add: upd)
qed


subsection \<open>The confidence score\<close>

lemma z_vals_empty:
  "get_significant_anchors srt h ts xs MAX_SIGNIFICANT_ANCHORS = [] \<Longrightarrow> z_vals srt h ts xs = Inr []"
  by (simp add: z_vals_def distances_def)

text \<open>
  Claim C9. If the significant-anchor set of a fix is empty, the confidence score
  is 0 and \<^verbatim>\<open>error_radius\<close> returns the table floor 7.4, whatever the store holds
  and whatever the implementation of \<^verbatim>\<open>std::sort\<close>; this is the case for an
  empty candidate list and for an empty RSSI map.
\<close>

theorem empty_selection_score:
  "(get_significant_anchors srt h ts xs MAX_SIGNIFICANT_ANCHORS = [] \<longrightarrow>
      confidence_score srt h ts xs v scale = Inr 0 \<and> error_radius srt h ts xs = Inr 7.4) \<and>
   get_significant_anchors srt h ts [] MAX_SIGNIFICANT_ANCHORS = [] \<and>
   (rssi_readings (ts_tag ts) = [] \<longrightarrow>
      get_significant_anchors srt h ts xs MAX_SIGNIFICANT_ANCHORS = [])"
proof -
  have a: "confidence_score srt h ts xs v scale = Inr 0 \<and> error_radius srt h ts xs = Inr 7.4"
    if "get_significant_anchors srt h ts xs MAX_SIGNIFICANT_ANCHORS = []"
  proof -
    from that have z: "z_vals srt h ts xs = Inr []" by (rule z_vals_empty)
    then have c: "confidence_score srt h ts xs v scale = Inr 0" for v scale
      by (simp add: confidence_score_def)
    have "cep95_from_conf 0 = Inr 7.4" by (simp add: cep95_eq_pw cep95_pw_def)
    with c show ?thesis by (simp add: error_radius_def)
  qed
  have b: "get_significant_anchors srt h ts [] MAX_SIGNIFICANT_ANCHORS = []"
    by (simp add: get_significant_anchors_take keep_loop_filter std_sort_desc_def std_sort_Nil)
  have c: "get_significant_anchors srt h ts xs MAX_SIGNIFICANT_ANCHORS = []"
    if "rssi_readings (ts_tag ts) = []"
    using that by (simp add: get_significant_anchors_take)
  from a b c show ?thesis by blast
qed

theorem empty_selection_score_witness:
  "confidence_score insertion_sort create_test_anchors test_system [] 5 2 = Inr 0 \<and>
   error_radius insertion_sort create_test_anchors test_system [] = Inr 7.4 \<and>
   error_radius insertion_sort create_test_anchors
     \<lparr>ts_tag = create_test_tag\<lparr>rssi_readings := []\<rparr>, ts_model = PathLossModel_init\<rparr>
     [0, 1, 2, 3, 4] = Inr 7.4"
proof -
  let ?ts0 = "\<lparr>ts_tag = create_test_tag\<lparr>rssi_readings := []\<rparr>, ts_model = PathLossModel_init\<rparr>"
  note T1 = empty_selection_score[where h = create_test_anchors and ts = test_system and xs = "[]"
      and v = 5 and scale = 2 and srt = insertion_sort]
  note T2 = empty_selection_score[where h = create_test_anchors and ts = ?ts0
      and xs = "[0, 1, 2, 3, 4]" and v = 5 and scale = 2 and srt = insertion_sort]
  from T1 have "confidence_score insertion_sort create_test_anchors test_system [] 5 2 = Inr 0"
    and "error_radius insertion_sort create_test_anchors test_system [] = Inr 7.4"
    by blast+
  moreover have "rssi_readings (ts_tag ?ts0) = []" by simp
  with T2 have "error_radius insertion_sort create_test_anchors ?ts0 [0, 1, 2, 3, 4] = Inr 7.4"
    by blast
  ultimately show ?thesis by simp
qed










end
